theory Spec2Isabelle
  imports Main "HOL-Library.Multiset"
begin

section \<open>Extraction results and the chunker\<close>

text \<open>
  An extraction result is a Python dict from collection names to lists of records.
  It is kept as an association list in insertion order; \<open>dict_get\<close> is
  \<^verbatim>\<open>data.get(key, [])\<close>. The record type \<open>'r\<close> is left open: the chunker never
  looks inside a record.
\<close>

type_synonym 'r data = "(string \<times> 'r list) list"

datatype exn = ValueError | IntegrityError | UnboundLocalError | OverflowError

definition dict_get :: "'r data \<Rightarrow> string \<Rightarrow> 'r list" where
  "dict_get data key = (case map_of data key of None \<Rightarrow> [] | Some v \<Rightarrow> v)"

text \<open>\<^verbatim>\<open>sum(len(v) for v in data.values())\<close>, as \<^verbatim>\<open>extract_data\<close> counts the records.\<close>

definition total_records :: "'r data \<Rightarrow> nat" where
  "total_records data = sum_list (map (\<lambda>kv. length (snd kv)) data)"

text \<open>
  The dict that \<^verbatim>\<open>extract_all_data\<close> (tools/access_db.py) builds from the four
  table extractions, with the keys it uses.
\<close>

definition extract_all_data :: "'r list \<Rightarrow> 'r list \<Rightarrow> 'r list \<Rightarrow> 'r list \<Rightarrow> 'r data" where
  "extract_all_data orderheaders orderpayments account_invoice_erp orderdetails =
     [(''orderheaders'', orderheaders),
      (''orderpayments'', orderpayments),
      (''account_invoice_erp'', account_invoice_erp),
      (''orderdetails'', orderdetails)]"

text \<open>
  \<^verbatim>\<open>range(0, n, step)\<close>: a zero step raises ValueError, a negative step from 0 up to a
  length yields nothing, a positive step yields \<open>0, step, 2 * step, ...\<close> below \<open>n\<close>.
\<close>

definition py_range :: "nat \<Rightarrow> int \<Rightarrow> exn + nat list" where
  "py_range n step =
     (if step = 0 then Inl ValueError
      else if step < 0 then Inr []
      else Inr (map (\<lambda>k. k * nat step) [0 ..< (n + nat step - 1) div nat step]))"

text \<open>
  One of the three loops of \<^verbatim>\<open>_chunk_data\<close>: the slices \<^verbatim>\<open>xs[i:i + chunk_size]\<close>
  for \<^verbatim>\<open>i in range(0, len(xs), chunk_size)\<close>. The slice is only taken when the step
  is positive, where it is \<open>take\<close> after \<open>drop\<close>.
\<close>

definition slices :: "'r list \<Rightarrow> int \<Rightarrow> exn + 'r list list" where
  "slices xs chunk_size =
     (case py_range (length xs) chunk_size of
        Inl e \<Rightarrow> Inl e
      | Inr starts \<Rightarrow> Inr (map (\<lambda>i. take (nat chunk_size) (drop i xs)) starts))"

definition orders_chunk :: "'r list \<Rightarrow> 'r data \<times> nat" where
  "orders_chunk chunk_orders =
     ([(''orderheaders'', chunk_orders), (''orderpayments'', []), (''accountinvoiceerp'', [])],
      length chunk_orders)"

definition payments_chunk :: "'r list \<Rightarrow> 'r data \<times> nat" where
  "payments_chunk chunk_payments =
     ([(''orderheaders'', []), (''orderpayments'', chunk_payments), (''accountinvoiceerp'', [])],
      length chunk_payments)"

definition invoices_chunk :: "'r list \<Rightarrow> 'r data \<times> nat" where
  "invoices_chunk chunk_invoices =
     ([(''orderheaders'', []), (''orderpayments'', []), (''accountinvoiceerp'', chunk_invoices)],
      length chunk_invoices)"

text \<open>
  \<^verbatim>\<open>SmartAgent._chunk_data(data, chunk_size)\<close>: the list of
  \<^verbatim>\<open>(chunk_data, chunk_count)\<close> pairs, or the ValueError of a zero step.
\<close>

definition chunk_data :: "'r data \<Rightarrow> int \<Rightarrow> exn + ('r data \<times> nat) list" where
  "chunk_data data chunk_size =
     (let orderheaders = dict_get data ''orderheaders'';
          orderpayments = dict_get data ''orderpayments'';
          invoices = dict_get data ''accountinvoiceerp'';
          total = length orderheaders + length orderpayments + length invoices
      in if int total \<le> chunk_size then Inr [(data, total)]
         else
           (case slices orderheaders chunk_size of
              Inl e \<Rightarrow> Inl e
            | Inr hs \<Rightarrow>
                (case slices orderpayments chunk_size of
                   Inl e \<Rightarrow> Inl e
                 | Inr ps \<Rightarrow>
                     (case slices invoices chunk_size of
                        Inl e \<Rightarrow> Inl e
                      | Inr vs \<Rightarrow>
                          Inr (map orders_chunk hs @ map payments_chunk ps
                               @ map invoices_chunk vs)))))"

text \<open>
  The slices of one named collection found in a chunk sequence, concatenated in emission
  order.
\<close>

definition collected :: "string \<Rightarrow> ('r data \<times> nat) list \<Rightarrow> 'r list" where
  "collected key chunks = concat (map (\<lambda>c. dict_get (fst c) key) chunks)"


section \<open>JSON documents and the json module\<close>

text \<open>
  The payload column holds the text that \<^verbatim>\<open>json.dumps\<close> writes. The text is
  represented by the JSON document it denotes; numbers are integers, and floating-point
  numbers are left out.
\<close>

datatype json =
    JNull
  | JBool bool
  | JNum int
  | JStr string
  | JArr "json list"
  | JObj "(string \<times> json) list"



text \<open>Python's \<^verbatim>\<open>str\<close> of an integer.\<close>

fun str_nat :: "nat \<Rightarrow> string" where
  "str_nat n = (if n < 10 then [''0123456789'' ! n]
                else str_nat (n div 10) @ [''0123456789'' ! (n mod 10)])"

definition str_int :: "int \<Rightarrow> string" where
  "str_int i = (if i < 0 then CHR ''-'' # str_nat (nat (- i)) else str_nat (nat i))"








section \<open>The local buffer (SyncBuffer)\<close>

text \<open>
  The two SQLite tables the agent writes, each as the list of its rows in insertion
  order. Timestamps are the texts of \<^verbatim>\<open>datetime.now().isoformat()\<close>; their type
  \<open>'t\<close> is left open and only its order is used (\<^verbatim>\<open>ORDER BY created_at\<close>).
  \<^verbatim>\<open>time.time()\<close> and the durations computed from it are floats in the source and
  integer ticks here. The \<^verbatim>\<open>agent_status\<close> table is created but never read or
  written, and is left out. Failures of the storage itself (an unwritable disk) are not
  modelled.
\<close>

record 't pending_row =
  p_id :: string
  p_store_id :: string
  p_payload :: json
  p_record_count :: int
  p_created_at :: 't
  p_retry_count :: int
  p_last_error :: "string option"
  p_status :: string

record 't history_row =
  h_id :: string
  h_store_id :: string
  h_record_count :: int
  h_synced_at :: 't
  h_duration_seconds :: int
  h_status :: "string option"
  h_error_message :: "string option"

record 't sync_buffer =
  pending_sync :: "'t pending_row list"
  sync_history :: "'t history_row list"

text \<open>An entry of the list that \<^verbatim>\<open>get_pending\<close> returns.\<close>

record 'p batch =
  b_id :: string
  b_store_id :: string
  b_payload :: 'p
  b_record_count :: int
  b_retry_count :: int

text \<open>
  The integers that the sqlite3 module can bind to a statement parameter: those of
  SQLite's signed 64-bit INTEGER. Binding any other Python integer raises OverflowError
  before the statement runs.
\<close>

definition sqlite_integer :: "int \<Rightarrow> bool" where
  "sqlite_integer i = (- (2 ^ 63) \<le> i \<and> i < 2 ^ 63)"

text \<open>
  \<^verbatim>\<open>add_pending\<close>. The fresh \<^verbatim>\<open>uuid4\<close>, the clock reading and \<^verbatim>\<open>json.dumps\<close> are
  supplied by the caller. Binding a \<^verbatim>\<open>record_count\<close> outside the 64-bit range raises
  OverflowError; the INSERT fails with IntegrityError on a NULL \<^verbatim>\<open>store_id\<close>
  (\<^verbatim>\<open>NOT NULL\<close>) and on an id already in the table (\<^verbatim>\<open>PRIMARY KEY\<close>). Nothing is
  written in either case. The columns that the INSERT does not name take their defaults.
\<close>

definition add_pending ::
  "('p \<Rightarrow> json) \<Rightarrow> string \<Rightarrow> 't \<Rightarrow> string option \<Rightarrow> 'p \<Rightarrow> int \<Rightarrow> 't sync_buffer
     \<Rightarrow> exn + (string \<times> 't sync_buffer)" where
  "add_pending json_dumps sync_id now store_id payload record_count buf =
     (if \<not> sqlite_integer record_count then Inl OverflowError
      else
        (case store_id of
           None \<Rightarrow> Inl IntegrityError
         | Some sid \<Rightarrow>
             if sync_id \<in> set (map p_id (pending_sync buf)) then Inl IntegrityError
             else Inr (sync_id,
                    buf\<lparr>pending_sync := pending_sync buf @
                       [\<lparr>p_id = sync_id, p_store_id = sid, p_payload = json_dumps payload,
                         p_record_count = record_count, p_created_at = now,
                         p_retry_count = 0, p_last_error = None, p_status = ''pending''\<rparr>]\<rparr>)))"

text \<open>
  \<^verbatim>\<open>LIMIT ?\<close> with the bound value \<open>n\<close>: binding a value outside the 64-bit range
  raises OverflowError, a negative \<open>n\<close> means no upper bound, and any other \<open>n\<close> keeps
  the first \<open>n\<close> rows.
\<close>

definition sql_limit :: "int \<Rightarrow> 'a list \<Rightarrow> exn + 'a list" where
  "sql_limit n rows =
     (if \<not> sqlite_integer n then Inl OverflowError
      else if n < 0 then Inr rows
      else Inr (take (nat n) rows))"

text \<open>
  The SELECT of \<^verbatim>\<open>get_pending\<close>. The order among rows of equal \<^verbatim>\<open>created_at\<close> is
  the engine's choice; the model keeps their insertion order.
\<close>

definition get_pending_rows ::
  "int \<Rightarrow> ('t :: linorder) sync_buffer \<Rightarrow> exn + 't pending_row list" where
  "get_pending_rows limit buf =
     sql_limit limit
       (sort_key p_created_at (filter (\<lambda>r. p_status r = ''pending'') (pending_sync buf)))"

definition row_to_batch :: "(json \<Rightarrow> 'p) \<Rightarrow> 't pending_row \<Rightarrow> 'p batch" where
  "row_to_batch json_loads r =
     \<lparr>b_id = p_id r, b_store_id = p_store_id r, b_payload = json_loads (p_payload r),
      b_record_count = p_record_count r, b_retry_count = p_retry_count r\<rparr>"

definition get_pending ::
  "(json \<Rightarrow> 'p) \<Rightarrow> int \<Rightarrow> ('t :: linorder) sync_buffer \<Rightarrow> exn + 'p batch list" where
  "get_pending json_loads limit buf =
     (case get_pending_rows limit buf of
        Inl e \<Rightarrow> Inl e
      | Inr rows \<Rightarrow> Inr (map (row_to_batch json_loads) rows))"

text \<open>
  \<^verbatim>\<open>mark_synced\<close>: one transaction. The history INSERT fails with IntegrityError when
  the id is already in \<^verbatim>\<open>sync_history\<close>; nothing is committed then.
\<close>

definition mark_synced :: "string \<Rightarrow> 't \<Rightarrow> int \<Rightarrow> 't sync_buffer \<Rightarrow> exn + 't sync_buffer" where
  "mark_synced sync_id now duration buf =
     (case find (\<lambda>r. p_id r = sync_id) (pending_sync buf) of
        None \<Rightarrow> Inr buf
      | Some row \<Rightarrow>
          if sync_id \<in> set (map h_id (sync_history buf)) then Inl IntegrityError
          else Inr \<lparr>pending_sync = filter (\<lambda>r. p_id r \<noteq> sync_id) (pending_sync buf),
                    sync_history = sync_history buf @
                      [\<lparr>h_id = sync_id, h_store_id = p_store_id row,
                        h_record_count = p_record_count row, h_synced_at = now,
                        h_duration_seconds = duration, h_status = Some ''success'',
                        h_error_message = None\<rparr>]\<rparr>)"

text \<open>
  \<^verbatim>\<open>mark_failed\<close>: the UPDATE of the rows with the given id. The increment is
  SQLite's integer addition; a count at the top of the 64-bit range, where SQLite goes
  over to a REAL, is not modelled (the agent passes over a batch from 10 retries on).
\<close>

definition failed_row :: "string \<Rightarrow> 't pending_row \<Rightarrow> 't pending_row" where
  "failed_row error r = r\<lparr>p_retry_count := p_retry_count r + 1, p_last_error := Some error\<rparr>"

definition mark_failed :: "string \<Rightarrow> string \<Rightarrow> 't sync_buffer \<Rightarrow> 't sync_buffer" where
  "mark_failed sync_id error buf =
     buf\<lparr>pending_sync :=
           map (\<lambda>r. if p_id r = sync_id then failed_row error r else r) (pending_sync buf)\<rparr>"

section \<open>The agent (SmartAgent)\<close>

text \<open>
  The world outside the agent: what the \<open>k\<close>-th HTTP POST answers, the \<open>k\<close>-th
  \<^verbatim>\<open>uuid4\<close>, what the clocks show at the \<open>k\<close>-th reading, whether \<^verbatim>\<open>time.sleep\<close>
  accepts a length or raises, the JSON codec on the payloads, and what the extraction of
  this cycle yields (\<open>None\<close> for a missing database path, a failed connection or any
  exception inside the extraction).
\<close>

datatype outcome = Response int string | RequestException string

record ('p, 'r, 't) env =
  transport :: "nat \<Rightarrow> outcome"
  uuid4 :: "nat \<Rightarrow> string"
  datetime_now :: "nat \<Rightarrow> 't"
  time_time :: "nat \<Rightarrow> int"
  time_sleep :: "int \<Rightarrow> exn option"
  json_dumps :: "'p \<Rightarrow> json"
  json_loads :: "json \<Rightarrow> 'p"
  source :: "'r data option"

text \<open>
  Which lengths \<^verbatim>\<open>time.sleep\<close> rejects depends on the interpreter and the platform.
  CPython 3.11 converts a whole number of seconds to signed 64-bit nanoseconds and
  raises OverflowError when that fails, which it does beyond 9223372036 seconds either
  way; it raises ValueError for any other negative length. The operating system may
  reject more.
\<close>

definition cpython_sleep :: "int \<Rightarrow> exn option" where
  "cpython_sleep secs =
     (if secs < - 9223372036 \<or> 9223372036 < secs then Some OverflowError
      else if secs < 0 then Some ValueError
      else None)"

text \<open>
  The keys of \<^verbatim>\<open>config.json\<close> that the cycle reads; a missing key is \<open>None\<close>, and
  \<open>config_get\<close> is \<^verbatim>\<open>config.get(key, default)\<close>.
\<close>

record config =
  central_server_url :: "string option"
  retry_attempts :: "int option"
  retry_delay_seconds :: "int option"
  store_id :: "string option"

definition config_get :: "'a option \<Rightarrow> 'a \<Rightarrow> 'a" where
  "config_get entry dflt = (case entry of None \<Rightarrow> dflt | Some v \<Rightarrow> v)"

text \<open>
  The agent's state together with the trace of its effects: the payloads posted so far,
  the sleeps taken so far, and how many uuids and clock readings were drawn. Logging is
  not modelled. When an exception leaves a function, the state it leaves behind is not
  tracked.
\<close>

record ('p, 't) agent =
  buffer :: "'t sync_buffer"
  last_sync :: "'t option"
  sync_errors :: int
  posts :: "'p list"
  sleeps :: "int list"
  uuids_drawn :: nat
  clock_reads :: nat

text \<open>The \<^verbatim>\<open>HTTP <status>: <text>\<close> message, or the text of the requests exception.\<close>

definition error_message :: "outcome \<Rightarrow> string" where
  "error_message out =
     (case out of
        Response status_code text \<Rightarrow> ''HTTP '' @ str_int status_code @ '': '' @ take 200 text
      | RequestException e \<Rightarrow> e)"

definition is_success :: "outcome \<Rightarrow> bool" where
  "is_success out = (case out of Response status_code text \<Rightarrow> status_code = 200 | RequestException e \<Rightarrow> False)"

text \<open>
  \<^verbatim>\<open>if sync_id:\<close> holds for a string that is neither None nor empty; \<open>truthy\<close>
  returns that string, and \<open>None\<close> when the test fails.
\<close>

definition truthy :: "string option \<Rightarrow> string option" where
  "truthy sync_id = (case sync_id of None \<Rightarrow> None | Some s \<Rightarrow> if s = [] then None else Some s)"

text \<open>
  A predicate for stating properties: the \<^verbatim>\<open>sync_id\<close> argument either fails the
  \<^verbatim>\<open>if sync_id:\<close> test or names no row of the pending table.
\<close>

definition not_pending :: "string option \<Rightarrow> 't sync_buffer \<Rightarrow> bool" where
  "not_pending sync_id buf =
     (case truthy sync_id of None \<Rightarrow> True | Some sid \<Rightarrow> sid \<notin> set (map p_id (pending_sync buf)))"

text \<open>
  The success branch of \<^verbatim>\<open>push_to_api\<close>, after the POST answered 200. The clock is
  read for the duration, inside \<^verbatim>\<open>mark_synced\<close> when the row exists, and for
  \<^verbatim>\<open>last_sync\<close>.
\<close>

definition push_succeeded ::
  "('p, 'r, 't) env \<Rightarrow> string option \<Rightarrow> int \<Rightarrow> ('p, 't) agent \<Rightarrow> exn + (bool \<times> ('p, 't) agent)" where
  "push_succeeded env sync_id start_time s =
     (let duration = time_time env (clock_reads s) - start_time;
          s1 = s\<lparr>clock_reads := clock_reads s + 1\<rparr>
      in case truthy sync_id of
           Some sid \<Rightarrow>
             (case mark_synced sid (datetime_now env (clock_reads s1)) duration (buffer s1) of
                Inl e \<Rightarrow> Inl e
              | Inr buf \<Rightarrow>
                  (let s2 = s1\<lparr>buffer := buf,
                              clock_reads := clock_reads s1 +
                                (if sid \<in> set (map p_id (pending_sync (buffer s1))) then 1 else 0)\<rparr>
                   in Inr (True, s2\<lparr>last_sync := Some (datetime_now env (clock_reads s2)),
                                    sync_errors := 0,
                                    clock_reads := clock_reads s2 + 1\<rparr>)))
         | None \<Rightarrow>
             Inr (True, s1\<lparr>last_sync := Some (datetime_now env (clock_reads s1)),
                          sync_errors := 0,
                          clock_reads := clock_reads s1 + 1\<rparr>))"

text \<open>
  The code after the loop of \<^verbatim>\<open>push_to_api\<close>. \<^verbatim>\<open>error_msg\<close> is unbound when the
  loop body never ran; reading it then raises UnboundLocalError, after
  \<^verbatim>\<open>sync_errors\<close> was incremented.
\<close>

definition all_retries_failed ::
  "string option \<Rightarrow> string option \<Rightarrow> ('p, 't) agent \<Rightarrow> exn + (bool \<times> ('p, 't) agent)" where
  "all_retries_failed sync_id error_msg s =
     (let s1 = s\<lparr>sync_errors := sync_errors s + 1\<rparr>
      in case truthy sync_id of
           Some sid \<Rightarrow>
             (case error_msg of
                None \<Rightarrow> Inl UnboundLocalError
              | Some msg \<Rightarrow> Inr (False, s1\<lparr>buffer := mark_failed sid msg (buffer s1)\<rparr>))
         | None \<Rightarrow> Inr (False, s1))"

text \<open>
  The loop of \<^verbatim>\<open>push_to_api\<close> over the remaining attempt numbers. The sleep is
  outside the \<^verbatim>\<open>try\<close>: when \<^verbatim>\<open>time.sleep\<close> raises, the exception leaves
  \<^verbatim>\<open>push_to_api\<close>.
\<close>

fun push_loop ::
  "('p, 'r, 't) env \<Rightarrow> int \<Rightarrow> int \<Rightarrow> 'p \<Rightarrow> string option \<Rightarrow> int \<Rightarrow> int list \<Rightarrow> string option
     \<Rightarrow> ('p, 't) agent \<Rightarrow> exn + (bool \<times> ('p, 't) agent)" where
  "push_loop env max_retries base_delay payload sync_id start_time [] error_msg s =
     all_retries_failed sync_id error_msg s"
| "push_loop env max_retries base_delay payload sync_id start_time (attempt # rest) error_msg s =
     (let delay = base_delay * 2 ^ nat (attempt - 1);
          response = transport env (length (posts s));
          s1 = s\<lparr>posts := posts s @ [payload]\<rparr>
      in if is_success response then push_succeeded env sync_id start_time s1
         else if attempt < max_retries then
           (case time_sleep env delay of
              Some e \<Rightarrow> Inl e
            | None \<Rightarrow>
                push_loop env max_retries base_delay payload sync_id start_time rest
                  (Some (error_message response)) (s1\<lparr>sleeps := sleeps s1 @ [delay]\<rparr>))
         else push_loop env max_retries base_delay payload sync_id start_time rest
                (Some (error_message response)) s1)"

definition push_to_api ::
  "('p, 'r, 't) env \<Rightarrow> config \<Rightarrow> 'p \<Rightarrow> string option \<Rightarrow> ('p, 't) agent
     \<Rightarrow> exn + (bool \<times> ('p, 't) agent)" where
  "push_to_api env cfg payload sync_id s =
     (let max_retries = config_get (retry_attempts cfg) 5;
          base_delay = config_get (retry_delay_seconds cfg) 30;
          start_time = time_time env (clock_reads s)
      in push_loop env max_retries base_delay payload sync_id start_time [1 .. max_retries] None
           (s\<lparr>clock_reads := clock_reads s + 1\<rparr>))"

text \<open>The loop of \<^verbatim>\<open>sync_pending\<close> over the fetched batches.\<close>

fun sync_loop ::
  "('p, 'r, 't) env \<Rightarrow> config \<Rightarrow> 'p batch list \<Rightarrow> ('p, 't) agent \<Rightarrow> exn + ('p, 't) agent" where
  "sync_loop env cfg [] s = Inr s"
| "sync_loop env cfg (item # rest) s =
     (if b_retry_count item \<ge> 10 then sync_loop env cfg rest s
      else
        (case push_to_api env cfg (b_payload item) (Some (b_id item)) s of
           Inl e \<Rightarrow> Inl e
         | Inr (success, s1) \<Rightarrow> if \<not> success then Inr s1 else sync_loop env cfg rest s1))"

definition sync_pending ::
  "('p, 'r, 't :: linorder) env \<Rightarrow> config \<Rightarrow> ('p, 't) agent \<Rightarrow> exn + ('p, 't) agent" where
  "sync_pending env cfg s =
     (case get_pending (json_loads env) 5 (buffer s) of
        Inl e \<Rightarrow> Inl e
      | Inr pending \<Rightarrow> if pending = [] then Inr s else sync_loop env cfg pending s)"

text \<open>
  A function for stating properties: the state reached when every batch of a list was
  either passed over at the retry ceiling or delivered, in order; \<open>None\<close> when a
  delivery fails or raises.
\<close>

fun all_delivered ::
  "('p, 'r, 't) env \<Rightarrow> config \<Rightarrow> 'p batch list \<Rightarrow> ('p, 't) agent \<Rightarrow> ('p, 't) agent option" where
  "all_delivered env cfg [] s = Some s"
| "all_delivered env cfg (item # rest) s =
     (if b_retry_count item \<ge> 10 then all_delivered env cfg rest s
      else
        (case push_to_api env cfg (b_payload item) (Some (b_id item)) s of
           Inl e \<Rightarrow> None
         | Inr (success, s1) \<Rightarrow> if success then all_delivered env cfg rest s1 else None))"

text \<open>
  \<^verbatim>\<open>extract_data\<close>: \<^verbatim>\<open>(None, 0)\<close> when the extraction failed or returned an empty
  dict, the data and its total record count otherwise.
\<close>

definition extract_data :: "'r data option \<Rightarrow> 'r data option \<times> nat" where
  "extract_data src =
     (case src of
        None \<Rightarrow> (None, 0)
      | Some data \<Rightarrow> if data = [] then (None, 0) else (Some data, total_records data))"

text \<open>The delivery payload built for one chunk in \<^verbatim>\<open>run_extraction_job\<close>.\<close>

record ('r, 't) payload =
  pl_store_id :: "string option"
  pl_data :: "'r data"
  pl_extraction_time :: 't
  pl_agent_version :: string
  pl_chunk_number :: nat
  pl_total_chunks :: nat
  pl_chunk_records :: nat

definition AGENT_VERSION :: string where
  "AGENT_VERSION = ''2.0.0''"

definition chunk_payload ::
  "config \<Rightarrow> 't \<Rightarrow> nat \<Rightarrow> nat \<Rightarrow> 'r data \<Rightarrow> nat \<Rightarrow> ('r, 't) payload" where
  "chunk_payload cfg extraction_time total_chunks idx chunk chunk_count =
     \<lparr>pl_store_id = store_id cfg, pl_data = chunk,
      pl_extraction_time = extraction_time,
      pl_agent_version = AGENT_VERSION,
      pl_chunk_number = idx + 1, pl_total_chunks = total_chunks,
      pl_chunk_records = chunk_count\<rparr>"

text \<open>
  The loop of \<^verbatim>\<open>run_extraction_job\<close> over \<^verbatim>\<open>enumerate(chunks)\<close>. A chunk whose
  push fails is buffered with a fresh uuid and the current clock reading. The two
  counters of the source are only logged and are left out.
\<close>

fun deliver_chunks ::
  "(('r, 't) payload, 'r, 't) env \<Rightarrow> config \<Rightarrow> nat \<Rightarrow> nat \<Rightarrow> ('r data \<times> nat) list
     \<Rightarrow> (('r, 't) payload, 't) agent \<Rightarrow> exn + (('r, 't) payload, 't) agent" where
  "deliver_chunks env cfg total_chunks idx [] s = Inr s"
| "deliver_chunks env cfg total_chunks idx ((chunk, chunk_count) # rest) s =
     (let payload = chunk_payload cfg (datetime_now env (clock_reads s)) total_chunks idx
                      chunk chunk_count;
          s1 = s\<lparr>clock_reads := clock_reads s + 1\<rparr>
      in case push_to_api env cfg payload None s1 of
           Inl e \<Rightarrow> Inl e
         | Inr (success, s2) \<Rightarrow>
             if success then deliver_chunks env cfg total_chunks (idx + 1) rest s2
             else
               (case add_pending (json_dumps env) (uuid4 env (uuids_drawn s2))
                       (datetime_now env (clock_reads s2)) (store_id cfg) payload
                       (int chunk_count) (buffer s2) of
                  Inl e \<Rightarrow> Inl e
                | Inr (sync_id, buf) \<Rightarrow>
                    deliver_chunks env cfg total_chunks (idx + 1) rest
                      (s2\<lparr>buffer := buf, uuids_drawn := uuids_drawn s2 + 1,
                          clock_reads := clock_reads s2 + 1\<rparr>)))"

text \<open>Phases 2 and 3 of \<^verbatim>\<open>run_extraction_job\<close>: everything after \<^verbatim>\<open>sync_pending\<close>.\<close>

definition extract_and_deliver ::
  "(('r, 't) payload, 'r, 't) env \<Rightarrow> config \<Rightarrow> (('r, 't) payload, 't) agent
     \<Rightarrow> exn + (('r, 't) payload, 't) agent" where
  "extract_and_deliver env cfg s =
     (case extract_data (source env) of
        (data, record_count) \<Rightarrow>
          (case data of
             None \<Rightarrow> Inr s
           | Some d \<Rightarrow>
               if d = [] \<or> record_count = 0 then Inr s
               else
                 (case chunk_data d 5000 of
                    Inl e \<Rightarrow> Inl e
                  | Inr chunks \<Rightarrow> deliver_chunks env cfg (length chunks) 0 chunks s)))"

definition run_extraction_job ::
  "(('r, 't :: linorder) payload, 'r, 't) env \<Rightarrow> config \<Rightarrow> (('r, 't) payload, 't) agent
     \<Rightarrow> exn + (('r, 't) payload, 't) agent" where
  "run_extraction_job env cfg s =
     (case sync_pending env cfg s of
        Inl e \<Rightarrow> Inl e
      | Inr s1 \<Rightarrow> extract_and_deliver env cfg s1)"

section \<open>Concrete inputs\<close>

text \<open>
  A buffer with two pending batches: \<open>b1\<close>, newer and never retried, and \<open>b2\<close>,
  older and already at the retry ceiling. Payloads are natural numbers here, written to
  the payload column as JSON numbers.
\<close>

definition num_dumps :: "nat \<Rightarrow> json" where
  "num_dumps n = JNum (int n)"

definition num_loads :: "json \<Rightarrow> nat" where
  "num_loads doc = (case doc of JNum i \<Rightarrow> nat i | _ \<Rightarrow> 0)"

definition ex_row_new :: "nat pending_row" where
  "ex_row_new = \<lparr>p_id = ''b1'', p_store_id = ''store-1'', p_payload = JNum 3,
                  p_record_count = 3, p_created_at = 20, p_retry_count = 0,
                  p_last_error = None, p_status = ''pending''\<rparr>"

definition ex_row_old :: "nat pending_row" where
  "ex_row_old = \<lparr>p_id = ''b2'', p_store_id = ''store-1'', p_payload = JNum 2,
                  p_record_count = 2, p_created_at = 10, p_retry_count = 10,
                  p_last_error = Some ''timeout'', p_status = ''pending''\<rparr>"

definition ex_buffer :: "nat sync_buffer" where
  "ex_buffer = \<lparr>pending_sync = [ex_row_new, ex_row_old], sync_history = []\<rparr>"



text \<open>
  Two more pending batches, \<open>b4\<close> and \<open>b5\<close>, newer than the others, and an agent
  that starts a cycle with the four batches queued. The endpoint of \<open>down_env\<close>
  refuses every connection, that of \<open>busy_env\<close> answers 503, that of \<open>up_env\<close>
  answers 200, and that of \<open>flaky_env\<close> answers 200 once and then refuses; sleeping
  is CPython's; the extraction finds the four tables empty. The configuration asks for 3
  attempts with a base delay of 1.
\<close>

definition ex_row_last :: "nat pending_row" where
  "ex_row_last = \<lparr>p_id = ''b4'', p_store_id = ''store-1'', p_payload = JNum 1,
                   p_record_count = 1, p_created_at = 30, p_retry_count = 0,
                   p_last_error = None, p_status = ''pending''\<rparr>"

definition ex_row_tail :: "nat pending_row" where
  "ex_row_tail = \<lparr>p_id = ''b5'', p_store_id = ''store-1'', p_payload = JNum 4,
                   p_record_count = 4, p_created_at = 40, p_retry_count = 0,
                   p_last_error = None, p_status = ''pending''\<rparr>"

definition ex_queue :: "nat sync_buffer" where
  "ex_queue = \<lparr>pending_sync = [ex_row_new, ex_row_old, ex_row_last, ex_row_tail],
                sync_history = []\<rparr>"

definition ex_payload :: "(nat, nat) payload" where
  "ex_payload = \<lparr>pl_store_id = Some ''store-1'', pl_data = [(''orderheaders'', [7, 8])],
                  pl_extraction_time = 5, pl_agent_version = AGENT_VERSION,
                  pl_chunk_number = 1, pl_total_chunks = 1, pl_chunk_records = 2\<rparr>"

definition ex_dumps :: "(nat, nat) payload \<Rightarrow> json" where
  "ex_dumps p = num_dumps (pl_chunk_records p)"

definition ex_loads :: "json \<Rightarrow> (nat, nat) payload" where
  "ex_loads doc = ex_payload\<lparr>pl_chunk_records := num_loads doc\<rparr>"

definition down_env :: "((nat, nat) payload, nat, nat) env" where
  "down_env = \<lparr>transport = (\<lambda>k. RequestException ''connection refused''),
                uuid4 = (\<lambda>k. ''u'' @ str_nat k),
                datetime_now = (\<lambda>k. 100 + k),
                time_time = (\<lambda>k. int k),
                time_sleep = cpython_sleep,
                json_dumps = ex_dumps,
                json_loads = ex_loads,
                source = Some (extract_all_data [] [] [] [])\<rparr>"

definition busy_env :: "((nat, nat) payload, nat, nat) env" where
  "busy_env = down_env\<lparr>transport := (\<lambda>k. Response 503 ''busy'')\<rparr>"

definition up_env :: "((nat, nat) payload, nat, nat) env" where
  "up_env = down_env\<lparr>transport := (\<lambda>k. Response 200 ''ok'')\<rparr>"

definition flaky_env :: "((nat, nat) payload, nat, nat) env" where
  "flaky_env = down_env\<lparr>transport :=
     (\<lambda>k. if k = 0 then Response 200 ''ok'' else RequestException ''connection refused'')\<rparr>"

definition ex_config :: config where
  "ex_config = \<lparr>central_server_url = Some ''https://central.example/api/ingest'',
                 retry_attempts = Some 3, retry_delay_seconds = Some 1,
                 store_id = Some ''store-1''\<rparr>"

definition ex_agent :: "((nat, nat) payload, nat) agent" where
  "ex_agent = \<lparr>buffer = ex_queue, last_sync = None, sync_errors = 0, posts = [], sleeps = [],
                uuids_drawn = 0, clock_reads = 0\<rparr>"

definition idle_agent :: "((nat, nat) payload, nat) agent" where
  "idle_agent = ex_agent\<lparr>buffer := \<lparr>pending_sync = [], sync_history = []\<rparr>\<rparr>"

section \<open>Properties of the chunker\<close>

lemma dict_get_Cons:
  "dict_get ((k, v) # data) key = (if key = k then v else dict_get data key)"
  by (simp add: dict_get_def)

lemma total_records_Cons:
  "total_records ((k, v) # data) = length v + total_records data"
  by (simp add: total_records_def)

lemma keys_le_total:
  "distinct ks \<Longrightarrow> (\<Sum>k\<leftarrow>ks. length (dict_get data k)) \<le> total_records data"
proof (induction data arbitrary: ks)
  case Nil
  then show ?case by (simp add: dict_get_def total_records_def)
next
  case (Cons kv data)
  obtain k v where kv: "kv = (k, v)" by (cases kv)
  show ?case
  proof (cases "k \<in> set ks")
    case True
    have d: "distinct (remove1 k ks)" using Cons.prems by simp
    have notin: "k \<notin> set (remove1 k ks)" using Cons.prems by simp
    have "(\<Sum>x\<leftarrow>ks. length (dict_get ((k, v) # data) x))
            = length (dict_get ((k, v) # data) k)
              + (\<Sum>x\<leftarrow>remove1 k ks. length (dict_get ((k, v) # data) x))"
      using True by (rule sum_list_map_remove1)
    also have "(\<Sum>x\<leftarrow>remove1 k ks. length (dict_get ((k, v) # data) x))
                 = (\<Sum>x\<leftarrow>remove1 k ks. length (dict_get data x))"
      using notin by (intro arg_cong [where f = sum_list] map_cong) (auto simp: dict_get_Cons)
    finally show ?thesis
      using Cons.IH [OF d] by (simp add: kv total_records_Cons dict_get_Cons)
  next
    case False
    have "(\<Sum>x\<leftarrow>ks. length (dict_get ((k, v) # data) x))
            = (\<Sum>x\<leftarrow>ks. length (dict_get data x))"
      using False by (intro arg_cong [where f = sum_list] map_cong) (auto simp: dict_get_Cons)
    then show ?thesis
      using Cons.IH [OF Cons.prems] by (simp add: kv total_records_Cons)
  qed
qed

lemma three_keys_le_total:
  assumes "k1 \<noteq> k2" "k1 \<noteq> k3" "k2 \<noteq> k3"
  shows "length (dict_get data k1) + length (dict_get data k2) + length (dict_get data k3)
           \<le> total_records data"
  using keys_le_total [of "[k1, k2, k3]" data] assms by simp

lemma concat_slices_take:
  "concat (map (\<lambda>k. take c (drop (k * c) xs)) [0 ..< m]) = take (m * c) xs"
proof (induction m)
  case 0
  then show ?case by simp
next
  case (Suc m)
  have "take (m * c) xs @ take c (drop (m * c) xs) = take (m * c + c) xs"
    by (simp add: take_add)
  with Suc show ?case by (simp add: add.commute)
qed

lemma slices_concat:
  assumes "0 < chunk_size"
  shows "\<exists>ss. slices xs chunk_size = Inr ss \<and> concat ss = xs"
proof -
  let ?c = "nat chunk_size"
  let ?m = "(length xs + ?c - 1) div ?c"
  have c: "0 < ?c" using assms by simp
  have s: "slices xs chunk_size = Inr (map (\<lambda>i. take ?c (drop i xs)) (map (\<lambda>k. k * ?c) [0 ..< ?m]))"
    using assms by (simp add: slices_def py_range_def)
  have "length xs \<le> ?m * ?c"
  proof -
    have "(length xs + ?c - 1) mod ?c < ?c" using c by simp
    moreover have "?m * ?c + (length xs + ?c - 1) mod ?c = length xs + ?c - 1" by simp
    ultimately show ?thesis by linarith
  qed
  then have "take (?m * ?c) xs = xs" by simp
  then have "concat (map (\<lambda>i. take ?c (drop i xs)) (map (\<lambda>k. k * ?c) [0 ..< ?m])) = xs"
    using concat_slices_take [of ?c xs ?m] by (simp add: comp_def)
  with s show ?thesis by simp
qed

text \<open>
  C8. When the total record count over all collections is at most \<open>chunk_size\<close>
  (the empty result included), the chunker returns exactly one chunk, and its data is the
  input itself. The count that goes with it is that of the three collections the chunker
  reads.
\<close>

theorem chunk_data_small_single:
  assumes "int (total_records data) \<le> chunk_size"
  shows "chunk_data data chunk_size =
           Inr [(data, length (dict_get data ''orderheaders'')
                       + length (dict_get data ''orderpayments'')
                       + length (dict_get data ''accountinvoiceerp''))]"
proof -
  have "length (dict_get data ''orderheaders'') + length (dict_get data ''orderpayments'')
          + length (dict_get data ''accountinvoiceerp'') \<le> total_records data"
    by (rule three_keys_le_total) simp_all
  with assms show ?thesis
    by (simp add: chunk_data_def Let_def)
qed

theorem chunk_data_small_single_witness:
  "int (total_records (extract_all_data [1, 2] [3] [] [4 :: nat])) \<le> 4
   \<and> chunk_data (extract_all_data [1, 2] [3] [] [4 :: nat]) 4
       = Inr [(extract_all_data [1, 2] [3] [] [4 :: nat], 3)]
   \<and> int (total_records ([] :: nat data)) \<le> 0
   \<and> chunk_data ([] :: nat data) 0 = Inr [([], 0)]"
proof -
  have h: "int (total_records (extract_all_data [1, 2] [3] [] [4 :: nat])) \<le> 4"
    by (simp add: total_records_def extract_all_data_def)
  have e: "int (total_records ([] :: nat data)) \<le> 0"
    by (simp add: total_records_def)
  show ?thesis
    using h e chunk_data_small_single [OF h] chunk_data_small_single [OF e]
    by (simp add: dict_get_def extract_all_data_def)
qed


lemma collected_append: "collected key (xs @ ys) = collected key xs @ collected key ys"
  by (simp add: collected_def)

lemma collected_orders:
  "collected key (map orders_chunk hs) = (if key = ''orderheaders'' then concat hs else [])"
  by (induction hs) (auto simp: collected_def orders_chunk_def dict_get_def)

lemma collected_payments:
  "collected key (map payments_chunk ps) = (if key = ''orderpayments'' then concat ps else [])"
  by (induction ps) (auto simp: collected_def payments_chunk_def dict_get_def)

lemma collected_invoices:
  "collected key (map invoices_chunk vs) = (if key = ''accountinvoiceerp'' then concat vs else [])"
  by (induction vs) (auto simp: collected_def invoices_chunk_def dict_get_def)

text \<open>
  What the chunker does keep above \<open>chunk_size\<close>: the three collections it reads are
  rebuilt by concatenating their slices, and every other key collects nothing.
\<close>

lemma chunk_data_large:
  assumes pos: "0 < chunk_size"
    and big: "chunk_size < int (length (dict_get data ''orderheaders'')
                + length (dict_get data ''orderpayments'')
                + length (dict_get data ''accountinvoiceerp''))"
  shows "\<exists>cs. chunk_data data chunk_size = Inr cs
           \<and> collected key cs =
               (if key \<in> {''orderheaders'', ''orderpayments'', ''accountinvoiceerp''}
                then dict_get data key else [])"
proof -
  obtain hs where hs: "slices (dict_get data ''orderheaders'') chunk_size = Inr hs"
      "concat hs = dict_get data ''orderheaders''"
    using slices_concat [OF pos] by blast
  obtain ps where ps: "slices (dict_get data ''orderpayments'') chunk_size = Inr ps"
      "concat ps = dict_get data ''orderpayments''"
    using slices_concat [OF pos] by blast
  obtain vs where vs: "slices (dict_get data ''accountinvoiceerp'') chunk_size = Inr vs"
      "concat vs = dict_get data ''accountinvoiceerp''"
    using slices_concat [OF pos] by blast
  have "chunk_data data chunk_size
          = Inr (map orders_chunk hs @ map payments_chunk ps @ map invoices_chunk vs)"
    using big hs(1) ps(1) vs(1) by (simp add: chunk_data_def Let_def)
  moreover have "collected key (map orders_chunk hs @ map payments_chunk ps @ map invoices_chunk vs)
     = (if key \<in> {''orderheaders'', ''orderpayments'', ''accountinvoiceerp''}
                then dict_get data key else [])"
    using hs(2) ps(2) vs(2)
    by (simp add: collected_append collected_orders collected_payments collected_invoices)
  ultimately show ?thesis by simp
qed

text \<open>
  At the chunk size that \<^verbatim>\<open>run_extraction_job\<close> passes: an extraction with more than
  5000 order headers is chunked, and the chunks rebuild the headers and payments but
  hold nothing of the invoices and order details.
\<close>

lemma chunk_data_5000_loses:
  assumes "5000 < length orderheaders"
  shows "\<exists>chunks. chunk_data (extract_all_data orderheaders orderpayments invoices orderdetails) 5000
                    = Inr chunks
           \<and> collected ''orderheaders'' chunks = orderheaders
           \<and> collected ''orderpayments'' chunks = orderpayments
           \<and> collected ''account_invoice_erp'' chunks = []
           \<and> collected ''orderdetails'' chunks = []"
proof -
  let ?data = "extract_all_data orderheaders orderpayments invoices orderdetails"
  have g: "dict_get ?data ''orderheaders'' = orderheaders"
      "dict_get ?data ''orderpayments'' = orderpayments"
      "dict_get ?data ''accountinvoiceerp'' = []"
    by (simp_all add: dict_get_def extract_all_data_def)
  have big: "5000 < int (length (dict_get ?data ''orderheaders'')
                + length (dict_get ?data ''orderpayments'')
                + length (dict_get ?data ''accountinvoiceerp''))"
    using assms by (simp add: g)
  have pos: "(0 :: int) < 5000" by simp
  obtain chunks where c: "chunk_data ?data 5000 = Inr chunks"
    using chunk_data_large [OF pos big] by blast
  have "collected key chunks =
               (if key \<in> {''orderheaders'', ''orderpayments'', ''accountinvoiceerp''}
                then dict_get ?data key else [])" for key
    using chunk_data_large [OF pos big, of key] c by simp
  from this [of "''orderheaders''"] this [of "''orderpayments''"]
    this [of "''account_invoice_erp''"] this [of "''orderdetails''"] c
  show ?thesis by (simp add: g)
qed

text \<open>
  C1. The claim is that, above \<open>chunk_size\<close>, the slices found in the chunks rebuild
  every collection of the input. The chunker reads three fixed keys, and the extraction
  names its collections \<open>account_invoice_erp\<close> and \<open>orderdetails\<close>, which are not
  among them: on the extraction result below, with \<open>chunk_size = 2\<close>, the chunks hold
  the order headers and payments only, and the invoice and the order detail are in no
  chunk.
\<close>

theorem chunk_data_loses_collections:
  "total_records (extract_all_data [1, 2, 3] [4] [5] [6 :: nat]) = 6
   \<and> chunk_data (extract_all_data [1, 2, 3] [4] [5] [6 :: nat]) 2
       = Inr [([(''orderheaders'', [1, 2]), (''orderpayments'', []), (''accountinvoiceerp'', [])], 2),
              ([(''orderheaders'', [3]), (''orderpayments'', []), (''accountinvoiceerp'', [])], 1),
              ([(''orderheaders'', []), (''orderpayments'', [4]), (''accountinvoiceerp'', [])], 1)]
   \<and> dict_get (extract_all_data [1, 2, 3] [4] [5] [6 :: nat]) ''orderdetails'' = [6]
   \<and> dict_get (extract_all_data [1, 2, 3] [4] [5] [6 :: nat]) ''account_invoice_erp'' = [5]
   \<and> collected ''orderdetails''
        [([(''orderheaders'', [1, 2]), (''orderpayments'', []), (''accountinvoiceerp'', [])], 2),
         ([(''orderheaders'', [3]), (''orderpayments'', []), (''accountinvoiceerp'', [])], 1),
         ([(''orderheaders'', []), (''orderpayments'', [4 :: nat]), (''accountinvoiceerp'', [])], 1 :: nat)] = []
   \<and> collected ''account_invoice_erp''
        [([(''orderheaders'', [1, 2]), (''orderpayments'', []), (''accountinvoiceerp'', [])], 2),
         ([(''orderheaders'', [3]), (''orderpayments'', []), (''accountinvoiceerp'', [])], 1),
         ([(''orderheaders'', []), (''orderpayments'', [4 :: nat]), (''accountinvoiceerp'', [])], 1 :: nat)] = []"
  by (simp add: total_records_def extract_all_data_def chunk_data_def dict_get_def Let_def
      slices_def py_range_def orders_chunk_def payments_chunk_def invoices_chunk_def collected_def
      upt_rec [of 0] upt_rec [of 1] upt_rec [of 2])


section \<open>Properties of the json module\<close>






section \<open>Properties of the buffer\<close>

lemma find_None_ids: "find (\<lambda>r. p_id r = sid) rows = None \<longleftrightarrow> sid \<notin> set (map p_id rows)"
  by (auto simp: find_None_iff)

lemma mark_synced_absent:
  "sid \<notin> set (map p_id (pending_sync buf)) \<Longrightarrow> mark_synced sid now duration buf = Inr buf"
  using find_None_ids [of sid "pending_sync buf"] by (simp add: mark_synced_def)

lemma mark_failed_absent:
  "sid \<notin> set (map p_id (pending_sync buf)) \<Longrightarrow> mark_failed sid error buf = buf"
proof -
  assume a: "sid \<notin> set (map p_id (pending_sync buf))"
  have "map (\<lambda>r. if p_id r = sid then failed_row error r else r) (pending_sync buf) = pending_sync buf"
    using a by (intro map_idI) auto
  then show ?thesis by (simp add: mark_failed_def)
qed

lemma mark_synced_removes:
  "mark_synced sid now duration buf = Inr buf1 \<Longrightarrow> sid \<notin> set (map p_id (pending_sync buf1))"
  by (auto simp: mark_synced_def split: option.splits if_splits dest: iffD1 [OF find_None_ids])

lemma mark_synced_pending:
  assumes "mark_synced sid now duration buf = Inr buf1"
  shows "pending_sync buf1 = filter (\<lambda>r. p_id r \<noteq> sid) (pending_sync buf)"
proof (cases "find (\<lambda>r. p_id r = sid) (pending_sync buf)")
  case None
  then have "sid \<notin> set (map p_id (pending_sync buf))" by (simp add: find_None_ids)
  then have "filter (\<lambda>r. p_id r \<noteq> sid) (pending_sync buf) = pending_sync buf"
    by (intro filter_True) auto
  with None assms show ?thesis by (simp add: mark_synced_def)
next
  case (Some row)
  with assms show ?thesis by (auto simp: mark_synced_def split: if_splits)
qed

text \<open>
  C5. For an id that is not in the pending table, \<open>mark_synced\<close> and \<open>mark_failed\<close>
  return normally and leave the whole buffer as it was. Hence a second success signal
  for an id changes nothing: after a \<open>mark_synced\<close> that returned, another
  \<open>mark_synced\<close> for the same id returns the same buffer.
\<close>

theorem unknown_id_noop:
  "(sid \<notin> set (map p_id (pending_sync buf)) \<longrightarrow>
      mark_synced sid now duration buf = Inr buf \<and> mark_failed sid error buf = buf)
   \<and> (mark_synced sid now duration buf = Inr buf1 \<longrightarrow>
        mark_synced sid now' duration' buf1 = Inr buf1)"
  using mark_synced_absent mark_failed_absent mark_synced_removes by metis

lemma sql_limit_cases:
  assumes "sql_limit limit xs = Inr rows"
  shows "sqlite_integer limit \<and> rows = (if limit < 0 then xs else take (nat limit) xs)"
  using assms by (auto simp: sql_limit_def split: if_splits)

lemma sql_limit_prefix:
  assumes "sql_limit limit xs = Inr rows"
  shows "\<exists>rest. xs = rows @ rest"
proof (cases "limit < 0")
  case True
  with sql_limit_cases [OF assms] show ?thesis by simp
next
  case False
  with sql_limit_cases [OF assms] have "xs = rows @ drop (nat limit) xs" by simp
  then show ?thesis by blast
qed

lemma set_get_pending_rows:
  assumes "get_pending_rows limit buf = Inr rows"
  shows "set rows \<subseteq> {r \<in> set (pending_sync buf). p_status r = ''pending''}"
proof -
  from assms obtain rest where
    "sort_key p_created_at (filter (\<lambda>r. p_status r = ''pending'') (pending_sync buf)) = rows @ rest"
    unfolding get_pending_rows_def using sql_limit_prefix by blast
  then have "set rows \<subseteq> set (sort_key p_created_at (filter (\<lambda>r. p_status r = ''pending'') (pending_sync buf)))"
    by simp
  then show ?thesis by auto
qed

lemma get_pending_rows_prefix:
  assumes "get_pending_rows limit buf = Inr rows"
  shows "\<exists>rest. mset (rows @ rest) = mset (filter (\<lambda>r. p_status r = ''pending'') (pending_sync buf))
               \<and> sorted (map p_created_at (rows @ rest))"
proof -
  let ?all = "sort_key p_created_at (filter (\<lambda>r. p_status r = ''pending'') (pending_sync buf))"
  from assms obtain rest where r: "?all = rows @ rest"
    unfolding get_pending_rows_def using sql_limit_prefix by blast
  have "mset ?all = mset (filter (\<lambda>r. p_status r = ''pending'') (pending_sync buf))"
    by simp
  moreover have "sorted (map p_created_at ?all)" by simp
  ultimately show ?thesis unfolding r by blast
qed

lemma length_get_pending_rows:
  assumes "get_pending_rows limit buf = Inr rows"
  shows "length rows =
           (if limit < 0 then length (filter (\<lambda>r. p_status r = ''pending'') (pending_sync buf))
            else min (nat limit) (length (filter (\<lambda>r. p_status r = ''pending'') (pending_sync buf))))"
  using sql_limit_cases [OF assms [unfolded get_pending_rows_def]]
  by (auto simp: min_def)

lemma get_pending_rows_returns:
  "sqlite_integer limit \<Longrightarrow> \<exists>rows. get_pending_rows limit buf = Inr rows"
  by (simp add: get_pending_rows_def sql_limit_def)

lemma get_pending_Inr:
  "get_pending loads limit buf = Inr batches \<longleftrightarrow>
     (\<exists>rows. get_pending_rows limit buf = Inr rows \<and> batches = map (row_to_batch loads) rows)"
  by (auto simp: get_pending_def split: sum.splits)

text \<open>
  C6, as amended. A limit that cannot be bound (outside the signed 64-bit range) raises
  OverflowError; every other limit returns. The batches returned are the projection of
  the selected rows. These are rows of the pending table with status \<open>pending\<close>, in
  non-decreasing \<open>created_at\<close> order, and they are oldest first: they form an initial
  segment of an arrangement of all pending rows in non-decreasing \<open>created_at\<close>
  order. For a limit that is not negative there are \<open>min limit n\<close> of them, \<open>n\<close> the
  number of pending rows, so at most \<open>limit\<close>; for a negative limit they are all the
  pending rows.
\<close>

theorem get_pending_oldest_first:
  "(sqlite_integer limit \<longrightarrow> (\<exists>rows. get_pending_rows limit buf = Inr rows))
   \<and> (\<not> sqlite_integer limit \<longrightarrow> get_pending loads limit buf = Inl OverflowError)
   \<and> (\<forall>rows. get_pending_rows limit buf = Inr rows \<longrightarrow>
         get_pending loads limit buf = Inr (map (row_to_batch loads) rows)
       \<and> (\<forall>r \<in> set rows. r \<in> set (pending_sync buf) \<and> p_status r = ''pending'')
       \<and> sorted (map p_created_at rows)
       \<and> (\<exists>rest. mset (rows @ rest)
                    = mset (filter (\<lambda>r. p_status r = ''pending'') (pending_sync buf))
                  \<and> sorted (map p_created_at (rows @ rest)))
       \<and> length rows =
           (if limit < 0 then length (filter (\<lambda>r. p_status r = ''pending'') (pending_sync buf))
            else min (nat limit) (length (filter (\<lambda>r. p_status r = ''pending'') (pending_sync buf))))
       \<and> (0 \<le> limit \<longrightarrow> int (length rows) \<le> limit)
       \<and> (limit < 0 \<longrightarrow>
            mset rows = mset (filter (\<lambda>r. p_status r = ''pending'') (pending_sync buf))))"
proof -
  have a: "sqlite_integer limit \<longrightarrow> (\<exists>rows. get_pending_rows limit buf = Inr rows)"
    using get_pending_rows_returns by blast
  have b: "\<not> sqlite_integer limit \<longrightarrow> get_pending loads limit buf = Inl OverflowError"
    by (simp add: get_pending_def get_pending_rows_def sql_limit_def)
  have c: "get_pending loads limit buf = Inr (map (row_to_batch loads) rows)
       \<and> (\<forall>r \<in> set rows. r \<in> set (pending_sync buf) \<and> p_status r = ''pending'')
       \<and> sorted (map p_created_at rows)
       \<and> (\<exists>rest. mset (rows @ rest)
                    = mset (filter (\<lambda>r. p_status r = ''pending'') (pending_sync buf))
                  \<and> sorted (map p_created_at (rows @ rest)))
       \<and> length rows =
           (if limit < 0 then length (filter (\<lambda>r. p_status r = ''pending'') (pending_sync buf))
            else min (nat limit) (length (filter (\<lambda>r. p_status r = ''pending'') (pending_sync buf))))
       \<and> (0 \<le> limit \<longrightarrow> int (length rows) \<le> limit)
       \<and> (limit < 0 \<longrightarrow>
            mset rows = mset (filter (\<lambda>r. p_status r = ''pending'') (pending_sync buf)))"
    if rows: "get_pending_rows limit buf = Inr rows" for rows
  proof -
    let ?pending = "filter (\<lambda>r. p_status r = ''pending'') (pending_sync buf)"
    have c1: "get_pending loads limit buf = Inr (map (row_to_batch loads) rows)"
      using rows by (simp add: get_pending_def)
    have c2: "\<forall>r \<in> set rows. r \<in> set (pending_sync buf) \<and> p_status r = ''pending''"
      using set_get_pending_rows [OF rows] by auto
    from get_pending_rows_prefix [OF rows] obtain rest where
      rest: "mset (rows @ rest) = mset ?pending" "sorted (map p_created_at (rows @ rest))"
      by blast
    have c3: "sorted (map p_created_at rows)"
      using rest(2) by (simp add: sorted_append)
    have c5: "length rows = (if limit < 0 then length ?pending else min (nat limit) (length ?pending))"
      by (rule length_get_pending_rows [OF rows])
    have c6: "0 \<le> limit \<longrightarrow> int (length rows) \<le> limit"
      using c5 by auto
    have c7: "limit < 0 \<longrightarrow> mset rows = mset ?pending"
    proof
      assume "limit < 0"
      then have "rows = sort_key p_created_at ?pending"
        using sql_limit_cases [OF rows [unfolded get_pending_rows_def]] by simp
      then show "mset rows = mset ?pending" by simp
    qed
    from c1 c2 c3 rest c5 c6 c7 show ?thesis by blast
  qed
  from a b c show ?thesis by blast
qed

lemma get_pending_ids:
  assumes "get_pending loads limit buf = Inr batches"
  shows "set (map b_id batches) \<subseteq> set (map p_id (pending_sync buf))"
proof -
  from assms obtain rows where rows: "get_pending_rows limit buf = Inr rows"
    "batches = map (row_to_batch loads) rows"
    by (auto simp: get_pending_Inr)
  show ?thesis
    using set_get_pending_rows [OF rows(1)] by (auto simp: rows(2) row_to_batch_def)
qed

lemma find_fresh_append:
  "sid \<notin> set (map p_id rows) \<Longrightarrow> p_id row = sid
     \<Longrightarrow> find (\<lambda>r. p_id r = sid) (rows @ [row]) = Some row"
  by (induction rows) auto

lemma filter_fresh_append:
  "sid \<notin> set (map p_id rows) \<Longrightarrow> p_id row = sid
     \<Longrightarrow> filter (\<lambda>r. p_id r \<noteq> sid) (rows @ [row]) = rows"
  by (induction rows) auto

lemma add_pending_returns:
  assumes "sync_id \<notin> set (map p_id (pending_sync buf))" "sqlite_integer record_count"
  shows "add_pending dumps sync_id created (Some store) payload record_count buf =
           Inr (sync_id,
                buf\<lparr>pending_sync := pending_sync buf @
                   [\<lparr>p_id = sync_id, p_store_id = store, p_payload = dumps payload,
                     p_record_count = record_count, p_created_at = created,
                     p_retry_count = 0, p_last_error = None, p_status = ''pending''\<rparr>]\<rparr>)"
  using assms by (simp add: add_pending_def)

lemma add_pending_Inr:
  assumes "add_pending dumps sync_id created store_arg payload record_count buf = Inr (sid, buf1)"
  shows "\<exists>store. store_arg = Some store \<and> sid = sync_id
           \<and> sync_id \<notin> set (map p_id (pending_sync buf)) \<and> sqlite_integer record_count
           \<and> buf1 = buf\<lparr>pending_sync := pending_sync buf @
                   [\<lparr>p_id = sync_id, p_store_id = store, p_payload = dumps payload,
                     p_record_count = record_count, p_created_at = created,
                     p_retry_count = 0, p_last_error = None, p_status = ''pending''\<rparr>]\<rparr>"
  using assms by (auto simp: add_pending_def split: if_splits option.splits)

text \<open>
  C4. Let the id be one that the history does not hold (a new uuid). The enqueue returns
  the id whenever the id is not pending either, a store id is given and the record count
  fits SQLite's INTEGER. And whenever \<open>add_pending\<close> returns an id, \<open>mark_synced\<close>
  with that id returns; afterwards no \<open>get_pending\<close> result, whatever its limit, lists
  the id, the pending table is what it was before the enqueue, and the history has
  gained exactly one row, at its end, with the batch's id, store id and record count and
  the supplied duration. Both changes of \<open>mark_synced\<close> are one state transition.
\<close>

theorem enqueue_then_mark_synced:
  assumes unused: "sync_id \<notin> set (map h_id (sync_history buf))"
  shows "(sync_id \<notin> set (map p_id (pending_sync buf)) \<and> sqlite_integer record_count
            \<and> store_arg \<noteq> None \<longrightarrow>
          (\<exists>buf1. add_pending dumps sync_id created store_arg payload record_count buf
                     = Inr (sync_id, buf1)))
       \<and> (\<forall>sid buf1.
            add_pending dumps sync_id created store_arg payload record_count buf = Inr (sid, buf1)
            \<longrightarrow> (\<exists>store buf2.
                   store_arg = Some store \<and> sid = sync_id
                 \<and> mark_synced sid synced duration buf1 = Inr buf2
                 \<and> (\<forall>limit batches. get_pending loads limit buf2 = Inr batches
                       \<longrightarrow> sid \<notin> set (map b_id batches))
                 \<and> pending_sync buf2 = pending_sync buf
                 \<and> sync_history buf2 = sync_history buf @
                      [\<lparr>h_id = sid, h_store_id = store, h_record_count = record_count,
                        h_synced_at = synced, h_duration_seconds = duration,
                        h_status = Some ''success'', h_error_message = None\<rparr>]))"
proof -
  have first: "\<exists>buf1. add_pending dumps sync_id created store_arg payload record_count buf
                     = Inr (sync_id, buf1)"
    if "sync_id \<notin> set (map p_id (pending_sync buf))" "sqlite_integer record_count"
      "store_arg \<noteq> None"
    using that add_pending_returns [OF that(1) that(2), of dumps created _ payload] by auto
  have second: "\<exists>store buf2.
                   store_arg = Some store \<and> sid = sync_id
                 \<and> mark_synced sid synced duration buf1 = Inr buf2
                 \<and> (\<forall>limit batches. get_pending loads limit buf2 = Inr batches
                       \<longrightarrow> sid \<notin> set (map b_id batches))
                 \<and> pending_sync buf2 = pending_sync buf
                 \<and> sync_history buf2 = sync_history buf @
                      [\<lparr>h_id = sid, h_store_id = store, h_record_count = record_count,
                        h_synced_at = synced, h_duration_seconds = duration,
                        h_status = Some ''success'', h_error_message = None\<rparr>]"
    if added: "add_pending dumps sync_id created store_arg payload record_count buf = Inr (sid, buf1)"
    for sid buf1
  proof -
    from add_pending_Inr [OF added] obtain store where
      st: "store_arg = Some store" "sid = sync_id"
      and fresh: "sync_id \<notin> set (map p_id (pending_sync buf))"
      and buf1: "buf1 = buf\<lparr>pending_sync := pending_sync buf @
                   [\<lparr>p_id = sync_id, p_store_id = store, p_payload = dumps payload,
                     p_record_count = record_count, p_created_at = created,
                     p_retry_count = 0, p_last_error = None, p_status = ''pending''\<rparr>]\<rparr>"
      by blast
    let ?row = "\<lparr>p_id = sync_id, p_store_id = store, p_payload = dumps payload,
                  p_record_count = record_count, p_created_at = created,
                  p_retry_count = 0, p_last_error = None, p_status = ''pending''\<rparr>"
    let ?buf2 = "\<lparr>pending_sync = pending_sync buf,
                   sync_history = sync_history buf @
                     [\<lparr>h_id = sync_id, h_store_id = store, h_record_count = record_count,
                       h_synced_at = synced, h_duration_seconds = duration,
                       h_status = Some ''success'', h_error_message = None\<rparr>]\<rparr>"
    have f: "find (\<lambda>r. p_id r = sync_id) (pending_sync buf @ [?row]) = Some ?row"
      using fresh by (intro find_fresh_append) simp_all
    have g: "filter (\<lambda>r. p_id r \<noteq> sync_id) (pending_sync buf @ [?row]) = pending_sync buf"
      using fresh by (intro filter_fresh_append) simp_all
    have m: "mark_synced sync_id synced duration buf1 = Inr ?buf2"
      using unused f g by (simp add: mark_synced_def buf1)
    have "sync_id \<notin> set (map b_id batches)"
      if "get_pending loads limit ?buf2 = Inr batches" for limit batches
      using get_pending_ids [OF that] fresh by auto
    with m st show ?thesis by auto
  qed
  from first second show ?thesis by blast
qed



subsection \<open>The buffer on concrete inputs\<close>

theorem unknown_id_noop_witness:
  "''zz'' \<notin> set (map p_id (pending_sync ex_buffer))
   \<and> mark_synced ''zz'' 30 4 ex_buffer = Inr ex_buffer
   \<and> mark_failed ''zz'' ''HTTP 500: down'' ex_buffer = ex_buffer
   \<and> mark_synced ''b1'' 30 4 ex_buffer
       = Inr \<lparr>pending_sync = [ex_row_old],
              sync_history = [\<lparr>h_id = ''b1'', h_store_id = ''store-1'', h_record_count = 3,
                                h_synced_at = 30, h_duration_seconds = 4,
                                h_status = Some ''success'', h_error_message = None\<rparr>]\<rparr>
   \<and> mark_synced ''b1'' 31 5
         \<lparr>pending_sync = [ex_row_old],
          sync_history = [\<lparr>h_id = ''b1'', h_store_id = ''store-1'', h_record_count = 3,
                            h_synced_at = 30, h_duration_seconds = 4,
                            h_status = Some ''success'', h_error_message = None\<rparr>]\<rparr>
       = Inr \<lparr>pending_sync = [ex_row_old],
              sync_history = [\<lparr>h_id = ''b1'', h_store_id = ''store-1'', h_record_count = 3,
                                h_synced_at = 30, h_duration_seconds = 4,
                                h_status = Some ''success'', h_error_message = None\<rparr>]\<rparr>"
proof -
  have absent: "''zz'' \<notin> set (map p_id (pending_sync ex_buffer))"
    by (simp add: ex_buffer_def ex_row_new_def ex_row_old_def)
  have first: "mark_synced ''b1'' 30 4 ex_buffer
       = Inr \<lparr>pending_sync = [ex_row_old],
              sync_history = [\<lparr>h_id = ''b1'', h_store_id = ''store-1'', h_record_count = 3,
                                h_synced_at = 30, h_duration_seconds = 4,
                                h_status = Some ''success'', h_error_message = None\<rparr>]\<rparr>"
    by (simp add: mark_synced_def ex_buffer_def ex_row_new_def ex_row_old_def)
  show ?thesis
    using absent first
      unknown_id_noop [of "''zz''" ex_buffer 30 4 "''HTTP 500: down''"]
      unknown_id_noop [of "''b1''" ex_buffer 30 4 _ _ 31 5]
    by simp
qed

theorem get_pending_oldest_first_witness:
  "sqlite_integer 1
   \<and> get_pending_rows 1 ex_buffer = Inr [ex_row_old]
   \<and> get_pending num_loads 1 ex_buffer
       = Inr [\<lparr>b_id = ''b2'', b_store_id = ''store-1'', b_payload = 2, b_record_count = 2,
                b_retry_count = 10\<rparr>]
   \<and> ex_row_old \<in> set (pending_sync ex_buffer) \<and> p_status ex_row_old = ''pending''
   \<and> mset ([ex_row_old] @ [ex_row_new])
       = mset (filter (\<lambda>r. p_status r = ''pending'') (pending_sync ex_buffer))
   \<and> sorted (map p_created_at ([ex_row_old] @ [ex_row_new]))
   \<and> length [ex_row_old]
       = min (nat 1) (length (filter (\<lambda>r. p_status r = ''pending'') (pending_sync ex_buffer)))
   \<and> sqlite_integer (- 1)
   \<and> get_pending_rows (- 1) ex_buffer = Inr [ex_row_old, ex_row_new]
   \<and> mset [ex_row_old, ex_row_new]
       = mset (filter (\<lambda>r. p_status r = ''pending'') (pending_sync ex_buffer))"
proof -
  have one: "get_pending_rows 1 ex_buffer = Inr [ex_row_old]"
    by (simp add: get_pending_rows_def sql_limit_def sqlite_integer_def ex_buffer_def
        ex_row_new_def ex_row_old_def)
  have all: "get_pending_rows (- 1) ex_buffer = Inr [ex_row_old, ex_row_new]"
    by (simp add: get_pending_rows_def sql_limit_def sqlite_integer_def ex_buffer_def
        ex_row_new_def ex_row_old_def)
  have batch: "row_to_batch num_loads ex_row_old
       = \<lparr>b_id = ''b2'', b_store_id = ''store-1'', b_payload = 2, b_record_count = 2,
            b_retry_count = 10\<rparr>"
    by (simp add: row_to_batch_def ex_row_old_def num_loads_def)
  have facts: "sqlite_integer 1" "sqlite_integer (- 1)"
      "ex_row_old \<in> set (pending_sync ex_buffer)" "p_status ex_row_old = ''pending''"
      "sorted (map p_created_at ([ex_row_old] @ [ex_row_new]))"
      "mset ([ex_row_old] @ [ex_row_new])
         = mset (filter (\<lambda>r. p_status r = ''pending'') (pending_sync ex_buffer))"
    by (simp_all add: sqlite_integer_def ex_buffer_def ex_row_new_def ex_row_old_def)
  show ?thesis
    using one all batch facts
      get_pending_oldest_first [of 1 ex_buffer num_loads]
      get_pending_oldest_first [of "- 1" ex_buffer num_loads]
    by simp
qed

text \<open>
  C6 as stated fails in two places. A negative limit is no limit to SQLite: both pending
  rows are returned for \<open>limit = -1\<close>. And a limit of \<open>2 ^ 63\<close> cannot be bound:
  the call raises OverflowError and returns nothing.
\<close>

theorem get_pending_negative_limit:
  "get_pending num_loads (- 1) ex_buffer
     = Inr [\<lparr>b_id = ''b2'', b_store_id = ''store-1'', b_payload = 2, b_record_count = 2,
              b_retry_count = 10\<rparr>,
            \<lparr>b_id = ''b1'', b_store_id = ''store-1'', b_payload = 3, b_record_count = 3,
              b_retry_count = 0\<rparr>]
   \<and> \<not> int (length
         [\<lparr>b_id = ''b2'', b_store_id = ''store-1'', b_payload = 2 :: nat, b_record_count = 2,
            b_retry_count = 10\<rparr>,
          \<lparr>b_id = ''b1'', b_store_id = ''store-1'', b_payload = 3, b_record_count = 3,
            b_retry_count = 0\<rparr>]) \<le> - 1
   \<and> get_pending num_loads (2 ^ 63) ex_buffer = Inl OverflowError"
  by (simp add: get_pending_def get_pending_rows_def sql_limit_def sqlite_integer_def
      row_to_batch_def num_loads_def ex_buffer_def ex_row_new_def ex_row_old_def)

theorem enqueue_then_mark_synced_witness:
  "''b3'' \<notin> set (map h_id (sync_history ex_buffer))
   \<and> ''b3'' \<notin> set (map p_id (pending_sync ex_buffer))
   \<and> sqlite_integer 5
   \<and> (\<exists>buf1 buf2.
           add_pending num_dumps ''b3'' 40 (Some ''store-1'') 5 5 ex_buffer = Inr (''b3'', buf1)
         \<and> mark_synced ''b3'' 50 7 buf1 = Inr buf2
         \<and> get_pending num_loads 10 buf2
             = Inr [row_to_batch num_loads ex_row_old, row_to_batch num_loads ex_row_new]
         \<and> pending_sync buf2 = pending_sync ex_buffer
         \<and> sync_history buf2 = sync_history ex_buffer @
              [\<lparr>h_id = ''b3'', h_store_id = ''store-1'', h_record_count = 5,
                h_synced_at = 50, h_duration_seconds = 7,
                h_status = Some ''success'', h_error_message = None\<rparr>])"
proof -
  have unused: "''b3'' \<notin> set (map h_id (sync_history ex_buffer))"
    by (simp add: ex_buffer_def)
  have fresh: "''b3'' \<notin> set (map p_id (pending_sync ex_buffer))"
    by (simp add: ex_buffer_def ex_row_new_def ex_row_old_def)
  have fits: "sqlite_integer 5"
    by (simp add: sqlite_integer_def)
  note inst = enqueue_then_mark_synced
      [OF unused, where store_arg = "Some ''store-1''" and record_count = 5 and dumps = num_dumps
         and created = 40 and payload = 5 and synced = 50 and duration = 7 and loads = num_loads]
  from inst fresh fits obtain buf1 where
    added: "add_pending num_dumps ''b3'' 40 (Some ''store-1'') 5 5 ex_buffer = Inr (''b3'', buf1)"
    by auto
  with inst obtain buf2 where
    marked: "mark_synced ''b3'' 50 7 buf1 = Inr buf2"
      "pending_sync buf2 = pending_sync ex_buffer"
      "sync_history buf2 = sync_history ex_buffer @
              [\<lparr>h_id = ''b3'', h_store_id = ''store-1'', h_record_count = 5,
                h_synced_at = 50, h_duration_seconds = 7,
                h_status = Some ''success'', h_error_message = None\<rparr>]"
    by blast
  have "get_pending num_loads 10 buf2
          = Inr [row_to_batch num_loads ex_row_old, row_to_batch num_loads ex_row_new]"
    using marked(2)
    by (simp add: get_pending_def get_pending_rows_def sql_limit_def sqlite_integer_def
        ex_buffer_def ex_row_new_def ex_row_old_def)
  with added marked unused fresh fits show ?thesis by blast
qed




section \<open>Properties of the agent\<close>


lemma length_attempts: "length [1 .. m] = nat m"
  by simp





lemma push_succeeded_buffer:
  assumes "push_succeeded env sync_id st s = Inr (ok, s')"
  shows "ok \<and> posts s' = posts s
       \<and> (case truthy sync_id of
            None \<Rightarrow> buffer s' = buffer s
          | Some sid \<Rightarrow>
              mark_synced sid (datetime_now env (clock_reads s + 1))
                (time_time env (clock_reads s) - st) (buffer s) = Inr (buffer s'))"
  using assms
  by (auto simp: push_succeeded_def Let_def split: option.splits sum.splits)

lemma all_retries_failed_buffer:
  assumes "all_retries_failed sync_id err s = Inr (ok, s')"
  shows "\<not> ok \<and> posts s' = posts s
       \<and> (case truthy sync_id of
            None \<Rightarrow> buffer s' = buffer s
          | Some sid \<Rightarrow> \<exists>msg. err = Some msg \<and> buffer s' = mark_failed sid msg (buffer s))"
  using assms
  by (auto simp: all_retries_failed_def Let_def split: option.splits)

text \<open>Every POST of one \<open>push_to_api\<close> call carries the payload of the call.\<close>

lemma push_loop_posts:
  assumes "push_loop env m d payload sync_id st as err s = Inr (ok, s')"
  shows "\<exists>n. posts s' = posts s @ replicate n payload \<and> (\<not> ok \<longrightarrow> n = length as)"
  using assms
proof (induction as arbitrary: s err)
  case Nil
  then show ?case using all_retries_failed_buffer by fastforce
next
  case (Cons a as)
  let ?s1 = "s\<lparr>posts := posts s @ [payload]\<rparr>"
  let ?s2 = "?s1\<lparr>sleeps := sleeps ?s1 @ [d * 2 ^ nat (a - 1)]\<rparr>"
  let ?err = "Some (error_message (transport env (length (posts s))))"
  consider (ok) "is_success (transport env (length (posts s)))"
    | (sleep) "\<not> is_success (transport env (length (posts s)))" "a < m"
    | (last) "\<not> is_success (transport env (length (posts s)))" "\<not> a < m"
    by blast
  then show ?case
  proof cases
    case ok
    then have "push_succeeded env sync_id st ?s1 = Inr (ok, s')"
      using Cons.prems by (simp add: Let_def)
    from push_succeeded_buffer [OF this]
    have "posts s' = posts s @ replicate 1 payload \<and> (\<not> ok \<longrightarrow> (1 :: nat) = length (a # as))"
      by simp
    then show ?thesis by blast
  next
    case sleep
    then have "push_loop env m d payload sync_id st as ?err ?s2 = Inr (ok, s')"
      using Cons.prems by (simp add: Let_def split: option.splits)
    from Cons.IH [OF this] obtain n where
      "posts s' = posts s @ replicate (Suc n) payload" "\<not> ok \<longrightarrow> Suc n = length (a # as)"
      by (auto simp: replicate_append_same)
    then show ?thesis by blast
  next
    case last
    then have "push_loop env m d payload sync_id st as ?err ?s1 = Inr (ok, s')"
      using Cons.prems by (simp add: Let_def)
    from Cons.IH [OF this] obtain n where
      "posts s' = posts s @ replicate (Suc n) payload" "\<not> ok \<longrightarrow> Suc n = length (a # as)"
      by (auto simp: replicate_append_same)
    then show ?thesis by blast
  qed
qed

lemma push_loop_buffer:
  assumes "push_loop env m d payload sync_id st as err s = Inr (ok, s')"
  shows "case truthy sync_id of
           None \<Rightarrow> buffer s' = buffer s
         | Some sid \<Rightarrow>
             if ok then
               mark_synced sid (datetime_now env (clock_reads s + 1))
                 (time_time env (clock_reads s) - st) (buffer s) = Inr (buffer s')
             else
               (\<exists>msg. (if as = [] then err = Some msg
                       else msg = error_message (transport env (length (posts s) + length as - 1)))
                     \<and> buffer s' = mark_failed sid msg (buffer s))"
  using assms
proof (induction as arbitrary: s err)
  case Nil
  then show ?case
    using all_retries_failed_buffer [of sync_id err s ok s']
    by (auto split: option.splits)
next
  case (Cons a as)
  let ?s1 = "s\<lparr>posts := posts s @ [payload]\<rparr>"
  let ?s2 = "?s1\<lparr>sleeps := sleeps ?s1 @ [d * 2 ^ nat (a - 1)]\<rparr>"
  let ?err = "Some (error_message (transport env (length (posts s))))"
  consider (ok) "is_success (transport env (length (posts s)))"
    | (sleep) "\<not> is_success (transport env (length (posts s)))" "a < m"
    | (last) "\<not> is_success (transport env (length (posts s)))" "\<not> a < m"
    by blast
  then show ?case
  proof cases
    case ok
    then have "push_succeeded env sync_id st ?s1 = Inr (ok, s')"
      using Cons.prems by (simp add: Let_def)
    from push_succeeded_buffer [OF this] show ?thesis
      by (auto split: option.splits)
  next
    case sleep
    then have "push_loop env m d payload sync_id st as ?err ?s2 = Inr (ok, s')"
      using Cons.prems by (simp add: Let_def split: option.splits)
    from Cons.IH [OF this] show ?thesis
      by (cases "as = []") (auto split: option.splits if_splits)
  next
    case last
    then have "push_loop env m d payload sync_id st as ?err ?s1 = Inr (ok, s')"
      using Cons.prems by (simp add: Let_def)
    from Cons.IH [OF this] show ?thesis
      by (cases "as = []") (auto split: option.splits if_splits)
  qed
qed

lemma push_to_api_posts:
  assumes "push_to_api env cfg payload sync_id s = Inr (ok, s')"
  shows "\<exists>n. posts s' = posts s @ replicate n payload
            \<and> (\<not> ok \<longrightarrow> n = nat (config_get (retry_attempts cfg) 5))"
  using push_loop_posts [OF assms [unfolded push_to_api_def Let_def]] by simp

lemma push_to_api_buffer:
  assumes "push_to_api env cfg payload sync_id s = Inr (ok, s')"
  shows "case truthy sync_id of
           None \<Rightarrow> buffer s' = buffer s
         | Some sid \<Rightarrow>
             if ok then
               mark_synced sid (datetime_now env (clock_reads s + 2))
                 (time_time env (clock_reads s + 1) - time_time env (clock_reads s)) (buffer s)
               = Inr (buffer s')
             else
               buffer s' = mark_failed sid (error_message (transport env (length (posts s') - 1)))
                             (buffer s)"
proof -
  let ?m = "config_get (retry_attempts cfg) 5"
  let ?s0 = "s\<lparr>clock_reads := clock_reads s + 1\<rparr>"
  note loop = assms [unfolded push_to_api_def Let_def]
  from push_loop_posts [OF loop] have p: "\<not> ok \<longrightarrow> posts s' = posts s @ replicate (length [1 .. ?m]) payload"
    by auto
  show ?thesis
  proof (cases "truthy sync_id")
    case None
    with push_loop_buffer [OF loop] show ?thesis by simp
  next
    case (Some sid)
    show ?thesis
    proof (cases ok)
      case True
      with Some push_loop_buffer [OF loop] show ?thesis by simp
    next
      case False
      with Some push_loop_buffer [OF loop] obtain msg where
        msg: "if [1 .. ?m] = [] then (None :: string option) = Some msg
              else msg = error_message (transport env (length (posts ?s0) + length [1 .. ?m] - 1))"
          "buffer s' = mark_failed sid msg (buffer s)"
        by auto
      from msg(1) have ne: "[1 .. ?m] \<noteq> []" by (auto split: if_splits)
      with msg(1) have "msg = error_message (transport env (length (posts s) + length [1 .. ?m] - 1))"
        by simp
      moreover have "length (posts s') = length (posts s) + length [1 .. ?m]"
        using p False by simp
      ultimately have "msg = error_message (transport env (length (posts s') - 1))"
        by simp
      with msg(2) Some False show ?thesis by simp
    qed
  qed
qed

lemma push_to_api_frame:
  assumes "not_pending sync_id (buffer s)" "push_to_api env cfg payload sync_id s = Inr (ok, s')"
  shows "buffer s' = buffer s"
proof (cases "truthy sync_id")
  case None
  with push_to_api_buffer [OF assms(2)] show ?thesis by simp
next
  case (Some sid)
  then have absent: "sid \<notin> set (map p_id (pending_sync (buffer s)))"
    using assms(1) by (simp add: not_pending_def)
  show ?thesis
    using push_to_api_buffer [OF assms(2)] Some
      mark_synced_absent [OF absent] mark_failed_absent [OF absent]
    by (cases ok) simp_all
qed

lemma all_retries_failed_returns:
  assumes "truthy sync_id = None \<or> err \<noteq> None"
  shows "\<exists>ok s'. all_retries_failed sync_id err s = Inr (ok, s')"
  using assms by (auto simp: all_retries_failed_def Let_def split: option.splits)

lemma push_succeeded_returns:
  assumes "not_pending sync_id (buffer s)"
  shows "\<exists>ok s'. push_succeeded env sync_id st s = Inr (ok, s')"
  using assms
  by (auto simp: push_succeeded_def not_pending_def Let_def mark_synced_absent
      split: option.splits)

lemma push_loop_returns:
  assumes "not_pending sync_id (buffer s)"
    and "\<forall>a \<in> set as. a < m \<longrightarrow> time_sleep env (d * 2 ^ nat (a - 1)) = None"
    and "truthy sync_id = None \<or> err \<noteq> None \<or> as \<noteq> []"
  shows "\<exists>ok s'. push_loop env m d payload sync_id st as err s = Inr (ok, s')"
  using assms
proof (induction as arbitrary: s err)
  case Nil
  then show ?case using all_retries_failed_returns [of sync_id err s] by simp
next
  case (Cons a as)
  let ?s1 = "s\<lparr>posts := posts s @ [payload]\<rparr>"
  let ?s2 = "?s1\<lparr>sleeps := sleeps ?s1 @ [d * 2 ^ nat (a - 1)]\<rparr>"
  let ?err = "Some (error_message (transport env (length (posts s))))"
  have n1: "not_pending sync_id (buffer ?s1)" and n2: "not_pending sync_id (buffer ?s2)"
    using Cons.prems(1) by simp_all
  have accepted: "\<forall>a \<in> set as. a < m \<longrightarrow> time_sleep env (d * 2 ^ nat (a - 1)) = None"
    using Cons.prems(2) by simp
  have sl: "a < m \<longrightarrow> time_sleep env (d * 2 ^ nat (a - 1)) = None"
    using Cons.prems(2) by simp
  have e: "truthy sync_id = None \<or> ?err \<noteq> None \<or> as \<noteq> []" by simp
  show ?case
    using push_succeeded_returns [OF n1, of env st]
      Cons.IH [OF n1 accepted e] Cons.IH [OF n2 accepted e] sl
    by (simp add: Let_def)
qed

lemma push_to_api_returns:
  assumes "not_pending sync_id (buffer s)"
    and "\<forall>a \<in> set [1 .. config_get (retry_attempts cfg) 5 - 1].
           time_sleep env (config_get (retry_delay_seconds cfg) 30 * 2 ^ nat (a - 1)) = None"
    and "truthy sync_id = None \<or> 1 \<le> config_get (retry_attempts cfg) 5"
  shows "\<exists>ok s'. push_to_api env cfg payload sync_id s = Inr (ok, s')"
proof -
  let ?m = "config_get (retry_attempts cfg) 5"
  let ?s0 = "s\<lparr>clock_reads := clock_reads s + 1\<rparr>"
  have n0: "not_pending sync_id (buffer ?s0)" using assms(1) by simp
  have a: "\<forall>a \<in> set [1 .. ?m]. a < ?m \<longrightarrow>
             time_sleep env (config_get (retry_delay_seconds cfg) 30 * 2 ^ nat (a - 1)) = None"
    using assms(2) by auto
  have "truthy sync_id = None \<or> (None :: string option) \<noteq> None \<or> [1 .. ?m] \<noteq> []"
    using assms(3) by (auto simp: upto_rec1)
  from push_loop_returns [OF n0 a this] show ?thesis
    by (simp add: push_to_api_def Let_def)
qed

lemma deliver_chunks_step:
  assumes "push_to_api env cfg
             (chunk_payload cfg (datetime_now env (clock_reads s)) total_chunks idx chunk chunk_count)
             None (s\<lparr>clock_reads := clock_reads s + 1\<rparr>) = Inr (ok, s2)"
  shows "buffer s2 = buffer s
       \<and> deliver_chunks env cfg total_chunks idx ((chunk, chunk_count) # rest) s =
           (if ok then deliver_chunks env cfg total_chunks (idx + 1) rest s2
            else
              (case add_pending (json_dumps env) (uuid4 env (uuids_drawn s2))
                      (datetime_now env (clock_reads s2)) (store_id cfg)
                      (chunk_payload cfg (datetime_now env (clock_reads s)) total_chunks idx
                         chunk chunk_count)
                      (int chunk_count) (buffer s) of
                 Inl e \<Rightarrow> Inl e
               | Inr (sync_id, buf) \<Rightarrow>
                   deliver_chunks env cfg total_chunks (idx + 1) rest
                     (s2\<lparr>buffer := buf, uuids_drawn := uuids_drawn s2 + 1,
                         clock_reads := clock_reads s2 + 1\<rparr>)))"
proof -
  have "not_pending None (buffer (s\<lparr>clock_reads := clock_reads s + 1\<rparr>))"
    by (simp add: not_pending_def truthy_def)
  from push_to_api_frame [OF this assms] have b: "buffer s2 = buffer s" by simp
  show ?thesis
    using assms b by (simp add: Let_def)
qed

lemma extract_and_deliver_chunks:
  assumes "source env = Some d" "0 < total_records d"
  shows "extract_and_deliver env cfg s =
           (case chunk_data d 5000 of
              Inl e \<Rightarrow> Inl e
            | Inr chunks \<Rightarrow> deliver_chunks env cfg (length chunks) 0 chunks s)"
proof -
  have "d \<noteq> []" using assms(2) by (auto simp: total_records_def)
  then show ?thesis
    using assms by (simp add: extract_and_deliver_def extract_data_def)
qed

text \<open>
  C2, as amended. Whenever \<open>push_to_api\<close> returns: without a \<open>sync_id\<close> (or with an
  empty one) the buffer is as before; with a \<open>sync_id\<close> the buffer is the one before
  with \<open>mark_synced\<close> applied for that id and the measured duration when \<open>True\<close> is
  returned, and with \<open>mark_failed\<close> applied for that id and the message of the last
  POST when \<open>False\<close> is returned; so for an id that is not pending it is unchanged too.
  The call does return then, when \<^verbatim>\<open>time.sleep\<close> accepts the sleep lengths and, for
  a given id, at least one attempt is configured. In the chunk phase \<open>push_to_api\<close> is
  called without a \<open>sync_id\<close>: it leaves the buffer as it was, and the chunk is passed
  to \<open>add_pending\<close> exactly when the call returned \<open>False\<close>; and that phase is what
  \<open>run_extraction_job\<close> runs on an extraction with records.
\<close>

theorem push_to_api_queue_effect:
  "(\<forall>ok s'. push_to_api env cfg payload sync_id s = Inr (ok, s') \<longrightarrow>
       (case truthy sync_id of
          None \<Rightarrow> buffer s' = buffer s
        | Some sid \<Rightarrow>
            if ok then
              mark_synced sid (datetime_now env (clock_reads s + 2))
                (time_time env (clock_reads s + 1) - time_time env (clock_reads s)) (buffer s)
              = Inr (buffer s')
            else
              buffer s' = mark_failed sid (error_message (transport env (length (posts s') - 1)))
                            (buffer s))
     \<and> (not_pending sync_id (buffer s) \<longrightarrow> buffer s' = buffer s))
   \<and> (not_pending sync_id (buffer s)
        \<and> (\<forall>a \<in> set [1 .. config_get (retry_attempts cfg) 5 - 1].
              time_sleep env (config_get (retry_delay_seconds cfg) 30 * 2 ^ nat (a - 1)) = None)
        \<and> (truthy sync_id = None \<or> 1 \<le> config_get (retry_attempts cfg) 5)
      \<longrightarrow> (\<exists>ok s'. push_to_api env cfg payload sync_id s = Inr (ok, s')))
   \<and> (\<forall>ok c2.
        push_to_api cenv cfg
          (chunk_payload cfg (datetime_now cenv (clock_reads c)) total_chunks idx chunk chunk_count)
          None (c\<lparr>clock_reads := clock_reads c + 1\<rparr>) = Inr (ok, c2)
        \<longrightarrow> buffer c2 = buffer c
          \<and> deliver_chunks cenv cfg total_chunks idx ((chunk, chunk_count) # rest) c =
              (if ok then deliver_chunks cenv cfg total_chunks (idx + 1) rest c2
               else
                 (case add_pending (json_dumps cenv) (uuid4 cenv (uuids_drawn c2))
                         (datetime_now cenv (clock_reads c2)) (store_id cfg)
                         (chunk_payload cfg (datetime_now cenv (clock_reads c)) total_chunks idx
                            chunk chunk_count)
                         (int chunk_count) (buffer c) of
                    Inl e \<Rightarrow> Inl e
                  | Inr (sync_id, buf) \<Rightarrow>
                      deliver_chunks cenv cfg total_chunks (idx + 1) rest
                        (c2\<lparr>buffer := buf, uuids_drawn := uuids_drawn c2 + 1,
                            clock_reads := clock_reads c2 + 1\<rparr>))))
   \<and> (\<forall>d. source cenv = Some d \<and> 0 < total_records d \<longrightarrow>
        extract_and_deliver cenv cfg c =
          (case chunk_data d 5000 of
             Inl e \<Rightarrow> Inl e
           | Inr chunks \<Rightarrow> deliver_chunks cenv cfg (length chunks) 0 chunks c))"
  using push_to_api_buffer [of env cfg payload sync_id s]
    push_to_api_frame [of sync_id s env cfg payload]
    push_to_api_returns [of sync_id s cfg env payload]
    deliver_chunks_step [of cenv cfg c total_chunks idx chunk chunk_count _ _ rest]
    extract_and_deliver_chunks [of cenv _ cfg c]
  by blast

lemma sync_loop_all_delivered:
  "all_delivered env cfg before s = Some s1
     \<Longrightarrow> sync_loop env cfg (before @ batches) s = sync_loop env cfg batches s1"
proof (induction before arbitrary: s)
  case Nil
  then show ?case by simp
next
  case (Cons b before)
  then show ?case
    by (auto split: sum.splits if_splits)
qed

lemma all_delivered_posts:
  "all_delivered env cfg before s = Some s1
     \<Longrightarrow> \<exists>extra. posts s1 = posts s @ extra
                \<and> set extra \<subseteq> b_payload ` {b \<in> set before. b_retry_count b < 10}"
proof (induction before arbitrary: s)
  case Nil
  then show ?case by simp
next
  case (Cons b before)
  show ?case
  proof (cases "10 \<le> b_retry_count b")
    case True
    with Cons.prems have "all_delivered env cfg before s = Some s1" by simp
    from Cons.IH [OF this] show ?thesis by auto
  next
    case False
    with Cons.prems obtain s0 where
      push: "push_to_api env cfg (b_payload b) (Some (b_id b)) s = Inr (True, s0)"
      and rest: "all_delivered env cfg before s0 = Some s1"
      by (auto split: sum.splits if_splits)
    from push_to_api_posts [OF push] obtain n where
      n: "posts s0 = posts s @ replicate n (b_payload b)" by blast
    from Cons.IH [OF rest] obtain extra where
      e: "posts s1 = posts s0 @ extra"
        "set extra \<subseteq> b_payload ` {b \<in> set before. b_retry_count b < 10}"
      by blast
    have "posts s1 = posts s @ (replicate n (b_payload b) @ extra)"
      using n e(1) by simp
    moreover have "set (replicate n (b_payload b) @ extra)
                     \<subseteq> b_payload ` {x \<in> set (b # before). b_retry_count x < 10}"
      using e(2) False by auto
    ultimately show ?thesis by blast
  qed
qed

lemma all_delivered_pending:
  assumes "all_delivered env cfg before s = Some s1" "\<forall>b \<in> set before. b_id b \<noteq> []"
  shows "pending_sync (buffer s1) =
           filter (\<lambda>r. p_id r \<notin> b_id ` {b \<in> set before. b_retry_count b < 10})
             (pending_sync (buffer s))"
  using assms
proof (induction before arbitrary: s)
  case Nil
  then show ?case by simp
next
  case (Cons b before)
  have ids: "\<forall>b \<in> set before. b_id b \<noteq> []" using Cons.prems(2) by simp
  show ?case
  proof (cases "10 \<le> b_retry_count b")
    case True
    with Cons.prems(1) have "all_delivered env cfg before s = Some s1" by simp
    from Cons.IH [OF this ids] True show ?thesis
      by (auto intro!: filter_cong)
  next
    case False
    with Cons.prems(1) obtain s0 where
      push: "push_to_api env cfg (b_payload b) (Some (b_id b)) s = Inr (True, s0)"
      and rest: "all_delivered env cfg before s0 = Some s1"
      by (auto split: sum.splits if_splits)
    have "truthy (Some (b_id b)) = Some (b_id b)"
      using Cons.prems(2) by (simp add: truthy_def)
    with push_to_api_buffer [OF push] obtain now duration where
      "mark_synced (b_id b) now duration (buffer s) = Inr (buffer s0)"
      by auto
    from mark_synced_pending [OF this]
    have p0: "pending_sync (buffer s0) = filter (\<lambda>r. p_id r \<noteq> b_id b) (pending_sync (buffer s))" .
    from Cons.IH [OF rest ids]
    have "pending_sync (buffer s1) =
            filter (\<lambda>r. p_id r \<notin> b_id ` {b \<in> set before. b_retry_count b < 10})
              (filter (\<lambda>r. p_id r \<noteq> b_id b) (pending_sync (buffer s)))"
      by (simp add: p0)
    then show ?thesis
      using False by (auto intro!: filter_cong)
  qed
qed

lemma truthy_nonempty: "sid \<noteq> [] \<Longrightarrow> truthy (Some sid) = Some sid"
  by (simp add: truthy_def)

text \<open>
  C7. Let the fetched batches start with batches that are each passed over at the retry
  ceiling or delivered (\<open>before\<close>, leading to the state \<open>s1\<close>), followed by a batch
  \<open>item\<close> below the ceiling whose delivery fails. Then \<open>sync_pending\<close> returns the
  state that the failed delivery returned, so nothing of the rest was attempted, and
  \<open>run_extraction_job\<close> goes on with the extraction phase from that state. Up to
  \<open>item\<close> only payloads of batches below the ceiling were posted, and the pending rows
  are those from the start without the delivered ones, so the rows of batches at the
  ceiling are as they were; the failed delivery posted \<open>item\<close>'s payload once per
  attempt, incremented \<open>retry_count\<close> and set \<open>last_error\<close> in the row of \<open>item\<close>'s
  id, and left every other row and the history as they were. And in any position and
  state a batch at the ceiling is passed over without effect.
\<close>

theorem sync_pending_stops_at_failure:
  assumes fetched: "get_pending (json_loads env) 5 (buffer s) = Inr (before @ item # rest)"
    and before: "all_delivered env cfg before s = Some s1"
    and ids: "\<forall>b \<in> set before. b_id b \<noteq> []" "b_id item \<noteq> []"
    and item: "b_retry_count item < 10"
    and failed: "push_to_api env cfg (b_payload item) (Some (b_id item)) s1 = Inr (False, s2)"
  shows "sync_pending env cfg s = Inr s2
     \<and> run_extraction_job env cfg s = extract_and_deliver env cfg s2
     \<and> (\<exists>extra. posts s1 = posts s @ extra
                \<and> set extra \<subseteq> b_payload ` {b \<in> set before. b_retry_count b < 10})
     \<and> posts s2 = posts s1 @ replicate (nat (config_get (retry_attempts cfg) 5)) (b_payload item)
     \<and> pending_sync (buffer s1) =
         filter (\<lambda>r. p_id r \<notin> b_id ` {b \<in> set before. b_retry_count b < 10})
           (pending_sync (buffer s))
     \<and> pending_sync (buffer s2) =
         map (\<lambda>r. if p_id r = b_id item
                   then r\<lparr>p_retry_count := p_retry_count r + 1,
                          p_last_error :=
                            Some (error_message (transport env (length (posts s2) - 1)))\<rparr>
                   else r)
           (pending_sync (buffer s1))
     \<and> sync_history (buffer s2) = sync_history (buffer s1)
     \<and> (10 \<le> b_retry_count b \<longrightarrow> sync_loop env cfg (b # bs) s0 = sync_loop env cfg bs s0)"
proof -
  have skip: "10 \<le> b_retry_count b \<longrightarrow> sync_loop env cfg (b # bs) s0 = sync_loop env cfg bs s0"
    by simp
  have "sync_loop env cfg (item # rest) s1 = Inr s2"
    using item failed by simp
  then have "sync_loop env cfg (before @ item # rest) s = Inr s2"
    by (simp only: sync_loop_all_delivered [OF before])
  then have sp: "sync_pending env cfg s = Inr s2"
    by (simp add: sync_pending_def fetched)
  then have job: "run_extraction_job env cfg s = extract_and_deliver env cfg s2"
    by (simp add: run_extraction_job_def)
  have posted: "posts s2 = posts s1 @ replicate (nat (config_get (retry_attempts cfg) 5)) (b_payload item)"
    using push_to_api_posts [OF failed] by simp
  have "buffer s2 = mark_failed (b_id item)
          (error_message (transport env (length (posts s2) - 1))) (buffer s1)"
    using push_to_api_buffer [OF failed] truthy_nonempty [OF ids(2)] by simp
  then have marked: "pending_sync (buffer s2) =
         map (\<lambda>r. if p_id r = b_id item
                   then r\<lparr>p_retry_count := p_retry_count r + 1,
                          p_last_error :=
                            Some (error_message (transport env (length (posts s2) - 1)))\<rparr>
                   else r)
           (pending_sync (buffer s1))"
      "sync_history (buffer s2) = sync_history (buffer s1)"
    by (simp_all add: mark_failed_def failed_row_def)
  from sp job all_delivered_posts [OF before] posted all_delivered_pending [OF before ids(1)] marked
    skip
  show ?thesis by blast
qed

text \<open>
  C9. When the extraction fails, or returns no collection, or returns zero records in
  total, the phases after \<open>sync_pending\<close> change nothing: no POST, no sleep, no uuid
  drawn, no row enqueued. The whole job is then \<open>sync_pending\<close>, and with nothing
  pending it leaves the state untouched.
\<close>

theorem empty_extraction_ends_cycle:
  assumes "source env = None \<or> (\<exists>d. source env = Some d \<and> total_records d = 0)"
  shows "extract_and_deliver env cfg s1 = Inr s1
       \<and> run_extraction_job env cfg s = sync_pending env cfg s
       \<and> (get_pending (json_loads env) 5 (buffer s) = Inr [] \<longrightarrow> run_extraction_job env cfg s = Inr s)"
proof -
  have e: "extract_and_deliver env cfg s1 = Inr s1" for s1
    using assms by (auto simp: extract_and_deliver_def extract_data_def split: option.splits)
  then have "run_extraction_job env cfg s = sync_pending env cfg s"
    by (simp add: run_extraction_job_def split: sum.splits)
  moreover have "get_pending (json_loads env) 5 (buffer s) = Inr [] \<Longrightarrow> sync_pending env cfg s = Inr s"
    by (simp add: sync_pending_def)
  ultimately show ?thesis using e by simp
qed


subsection \<open>The agent on concrete inputs\<close>

lemmas ex_defs = ex_agent_def ex_queue_def ex_row_new_def ex_row_old_def ex_row_last_def
  ex_row_tail_def ex_config_def down_env_def busy_env_def up_env_def flaky_env_def
  ex_payload_def ex_loads_def ex_dumps_def num_loads_def num_dumps_def idle_agent_def
  cpython_sleep_def

lemmas push_defs = push_to_api_def config_get_def Let_def is_success_def error_message_def
  all_retries_failed_def push_succeeded_def truthy_def mark_failed_def failed_row_def
  mark_synced_def str_int_def upto_rec1

text \<open>
  C2 as stated fails: called with the id of a pending batch, as \<open>sync_pending\<close> calls
  it, \<open>push_to_api\<close> itself changes the buffer. With every attempt refused, batch
  \<open>b1\<close> ends with \<open>retry_count = 1\<close> and the error text; with a 200 answer it is
  moved to the history.
\<close>

theorem push_to_api_marks_pending_batch:
  "push_to_api down_env ex_config (ex_loads (JNum 3)) (Some ''b1'') ex_agent
     = Inr (False,
         ex_agent\<lparr>buffer :=
                    \<lparr>pending_sync =
                       [ex_row_new\<lparr>p_retry_count := 1, p_last_error := Some ''connection refused''\<rparr>,
                        ex_row_old, ex_row_last, ex_row_tail],
                     sync_history = []\<rparr>,
                  sync_errors := 1,
                  posts := [ex_loads (JNum 3), ex_loads (JNum 3), ex_loads (JNum 3)],
                  sleeps := [1, 2], clock_reads := 1\<rparr>)
   \<and> \<lparr>pending_sync =
          [ex_row_new\<lparr>p_retry_count := 1, p_last_error := Some ''connection refused''\<rparr>,
           ex_row_old, ex_row_last, ex_row_tail],
        sync_history = []\<rparr> \<noteq> buffer ex_agent
   \<and> push_to_api up_env ex_config (ex_loads (JNum 3)) (Some ''b1'') ex_agent
     = Inr (True,
         ex_agent\<lparr>buffer :=
                    \<lparr>pending_sync = [ex_row_old, ex_row_last, ex_row_tail],
                     sync_history =
                       [\<lparr>h_id = ''b1'', h_store_id = ''store-1'', h_record_count = 3,
                         h_synced_at = 102, h_duration_seconds = 1,
                         h_status = Some ''success'', h_error_message = None\<rparr>]\<rparr>,
                  last_sync := Some 103, sync_errors := 0, posts := [ex_loads (JNum 3)],
                  clock_reads := 4\<rparr>)
   \<and> \<lparr>pending_sync = [ex_row_old, ex_row_last, ex_row_tail],
        sync_history =
          [\<lparr>h_id = ''b1'', h_store_id = ''store-1'', h_record_count = 3,
            h_synced_at = 102, h_duration_seconds = 1,
            h_status = Some ''success'', h_error_message = None\<rparr>]\<rparr> \<noteq> buffer ex_agent"
  by (simp add: push_defs ex_defs)

theorem push_to_api_queue_effect_witness:
  "(\<exists>s'. push_to_api up_env ex_config (ex_loads (JNum 3)) (Some ''b1'') ex_agent = Inr (True, s')
         \<and> mark_synced ''b1'' 102 1 (buffer ex_agent) = Inr (buffer s'))
   \<and> (\<exists>s'. push_to_api down_env ex_config (ex_loads (JNum 3)) (Some ''b1'') ex_agent = Inr (False, s')
         \<and> buffer s' = mark_failed ''b1'' ''connection refused'' (buffer ex_agent))
   \<and> not_pending None (buffer ex_agent)
   \<and> not_pending (Some ''zz'') (buffer ex_agent)
   \<and> time_sleep down_env (config_get (retry_delay_seconds ex_config) 30 * 2 ^ nat (1 - 1)) = None
   \<and> time_sleep down_env (config_get (retry_delay_seconds ex_config) 30 * 2 ^ nat (2 - 1)) = None
   \<and> 1 \<le> config_get (retry_attempts ex_config) 5
   \<and> (\<exists>ok s'. push_to_api up_env ex_config ex_payload None ex_agent = Inr (ok, s')
              \<and> buffer s' = buffer ex_agent)
   \<and> (\<exists>ok s'. push_to_api down_env ex_config ex_payload (Some ''zz'') ex_agent = Inr (ok, s')
              \<and> buffer s' = buffer ex_agent)
   \<and> source (down_env\<lparr>source := Some (extract_all_data [5, 6] [7] [] [])\<rparr>)
       = Some (extract_all_data [5, 6] [7] [] [])
   \<and> 0 < total_records (extract_all_data [5, 6] [7] [] [] :: nat data)
   \<and> extract_and_deliver (down_env\<lparr>source := Some (extract_all_data [5, 6] [7] [] [])\<rparr>)
         ex_config idle_agent
       = deliver_chunks (down_env\<lparr>source := Some (extract_all_data [5, 6] [7] [] [])\<rparr>)
           ex_config 1 0 [(extract_all_data [5, 6] [7] [] [], 3)] idle_agent
   \<and> (\<exists>s'. extract_and_deliver (down_env\<lparr>source := Some (extract_all_data [5, 6] [7] [] [])\<rparr>)
               ex_config idle_agent = Inr s'
          \<and> map p_id (pending_sync (buffer s')) = [''u0'']
          \<and> map p_record_count (pending_sync (buffer s')) = [3])
   \<and> (\<exists>s'. extract_and_deliver (up_env\<lparr>source := Some (extract_all_data [5, 6] [7] [] [])\<rparr>)
               ex_config idle_agent = Inr s'
          \<and> buffer s' = buffer idle_agent)"
proof -
  let ?denv = "down_env\<lparr>source := Some (extract_all_data [5, 6] [7] [] [])\<rparr>"
  let ?uenv = "up_env\<lparr>source := Some (extract_all_data [5, 6] [7] [] [])\<rparr>"
  note effect = push_to_api_queue_effect
  obtain s_up where up: "push_to_api up_env ex_config (ex_loads (JNum 3)) (Some ''b1'') ex_agent
      = Inr (True, s_up)"
    by (simp add: push_defs ex_defs)
  obtain s_down where down:
    "push_to_api down_env ex_config (ex_loads (JNum 3)) (Some ''b1'') ex_agent = Inr (False, s_down)"
    "length (posts s_down) = 3"
    by (simp add: push_defs ex_defs)
  have t: "truthy (Some ''b1'') = Some ''b1''"
    by (simp add: truthy_def)
  have clock: "datetime_now up_env (clock_reads ex_agent + 2) = 102"
      "time_time up_env (clock_reads ex_agent + 1) - time_time up_env (clock_reads ex_agent) = 1"
    by (simp_all add: ex_defs)
  have msg: "error_message (transport down_env (length (posts s_down) - 1)) = ''connection refused''"
    by (simp add: down_env_def error_message_def)
  have w1: "mark_synced ''b1'' 102 1 (buffer ex_agent) = Inr (buffer s_up)"
    using effect [of up_env ex_config "ex_loads (JNum 3)" "Some ''b1''" ex_agent,
        THEN conjunct1, rule_format, OF up, THEN conjunct1] t clock
    by simp
  have w2: "buffer s_down = mark_failed ''b1'' ''connection refused'' (buffer ex_agent)"
    using effect [of down_env ex_config "ex_loads (JNum 3)" "Some ''b1''" ex_agent,
        THEN conjunct1, rule_format, OF down(1), THEN conjunct1] t msg
    by simp
  have n1: "not_pending None (buffer ex_agent)"
    by (simp add: not_pending_def truthy_def)
  have n2: "not_pending (Some ''zz'') (buffer ex_agent)"
    by (simp add: not_pending_def truthy_def ex_defs)
  have cfg: "config_get (retry_attempts ex_config) 5 = 3"
      "config_get (retry_delay_seconds ex_config) 30 = 1"
    by (simp_all add: config_get_def ex_config_def)
  have sl: "time_sleep down_env (config_get (retry_delay_seconds ex_config) 30 * 2 ^ nat (1 - 1)) = None"
      "time_sleep down_env (config_get (retry_delay_seconds ex_config) 30 * 2 ^ nat (2 - 1)) = None"
      "time_sleep up_env (config_get (retry_delay_seconds ex_config) 30 * 2 ^ nat (1 - 1)) = None"
      "time_sleep up_env (config_get (retry_delay_seconds ex_config) 30 * 2 ^ nat (2 - 1)) = None"
    by (simp_all add: config_get_def ex_defs)
  have acc_down: "\<forall>a \<in> set [1 .. config_get (retry_attempts ex_config) 5 - 1].
         time_sleep down_env (config_get (retry_delay_seconds ex_config) 30 * 2 ^ nat (a - 1)) = None"
    using sl by (simp add: cfg(1) upto_rec1)
  have acc_up: "\<forall>a \<in> set [1 .. config_get (retry_attempts ex_config) 5 - 1].
         time_sleep up_env (config_get (retry_delay_seconds ex_config) 30 * 2 ^ nat (a - 1)) = None"
    using sl by (simp add: cfg(1) upto_rec1)
  have w3: "\<exists>ok s'. push_to_api up_env ex_config ex_payload None ex_agent = Inr (ok, s')
              \<and> buffer s' = buffer ex_agent"
    using effect [of up_env ex_config ex_payload None ex_agent] n1 acc_up
    by (simp add: truthy_def) blast
  have w4: "\<exists>ok s'. push_to_api down_env ex_config ex_payload (Some ''zz'') ex_agent = Inr (ok, s')
              \<and> buffer s' = buffer ex_agent"
    using effect [of down_env ex_config ex_payload "Some ''zz''" ex_agent] n2 acc_down cfg(1)
    by simp blast
  have src: "source ?denv = Some (extract_all_data [5, 6] [7] [] [])"
      "source ?uenv = Some (extract_all_data [5, 6] [7] [] [])"
    by simp_all
  have tot: "0 < total_records (extract_all_data [5, 6] [7] [] [] :: nat data)"
    by (simp add: total_records_def extract_all_data_def)
  have chunks: "chunk_data (extract_all_data [5, 6] [7] [] [] :: nat data) 5000
                  = Inr [(extract_all_data [5, 6] [7] [] [], 3)]"
    by (simp add: chunk_data_def dict_get_def extract_all_data_def Let_def)
  have w5: "extract_and_deliver ?denv ex_config idle_agent
       = deliver_chunks ?denv ex_config 1 0 [(extract_all_data [5, 6] [7] [] [], 3)] idle_agent"
    by (simp add: chunks
        effect [where cenv = ?denv and cfg = ex_config and c = idle_agent,
          THEN conjunct2, THEN conjunct2, THEN conjunct2, rule_format, OF conjI [OF src(1) tot]])
  have w6: "\<exists>s'. extract_and_deliver ?denv ex_config idle_agent = Inr s'
          \<and> map p_id (pending_sync (buffer s')) = [''u0'']
          \<and> map p_record_count (pending_sync (buffer s')) = [3]"
    unfolding w5
    by (simp add: push_defs ex_defs chunk_payload_def)
      (simp add: add_pending_def sqlite_integer_def)
  have w7a: "extract_and_deliver ?uenv ex_config idle_agent
       = deliver_chunks ?uenv ex_config 1 0 [(extract_all_data [5, 6] [7] [] [], 3)] idle_agent"
    by (simp add: chunks
        effect [where cenv = ?uenv and cfg = ex_config and c = idle_agent,
          THEN conjunct2, THEN conjunct2, THEN conjunct2, rule_format, OF conjI [OF src(2) tot]])
  have w7: "\<exists>s'. extract_and_deliver ?uenv ex_config idle_agent = Inr s'
          \<and> buffer s' = buffer idle_agent"
    unfolding w7a
    by (simp add: push_defs ex_defs chunk_payload_def)
  from up w1 have e1: "\<exists>s'. push_to_api up_env ex_config (ex_loads (JNum 3)) (Some ''b1'') ex_agent
           = Inr (True, s')
         \<and> mark_synced ''b1'' 102 1 (buffer ex_agent) = Inr (buffer s')"
    by blast
  from down(1) w2 have e2: "\<exists>s'. push_to_api down_env ex_config (ex_loads (JNum 3)) (Some ''b1'') ex_agent
           = Inr (False, s')
         \<and> buffer s' = mark_failed ''b1'' ''connection refused'' (buffer ex_agent)"
    by blast
  have one: "1 \<le> config_get (retry_attempts ex_config) 5"
    by (simp add: cfg)
  show ?thesis
    using e1 e2 n1 n2 sl(1) sl(2) one w3 w4 src(1) tot w5 w6 w7
    by (intro conjI) assumption+
qed



theorem sync_pending_stops_at_failure_witness:
  "get_pending (json_loads flaky_env) 5 (buffer ex_agent)
     = Inr ([row_to_batch ex_loads ex_row_old, row_to_batch ex_loads ex_row_new]
            @ row_to_batch ex_loads ex_row_last # [row_to_batch ex_loads ex_row_tail])
   \<and> all_delivered flaky_env ex_config
         [row_to_batch ex_loads ex_row_old, row_to_batch ex_loads ex_row_new] ex_agent
       = Some (ex_agent\<lparr>buffer :=
                    \<lparr>pending_sync = [ex_row_old, ex_row_last, ex_row_tail],
                     sync_history =
                       [\<lparr>h_id = ''b1'', h_store_id = ''store-1'', h_record_count = 3,
                         h_synced_at = 102, h_duration_seconds = 1,
                         h_status = Some ''success'', h_error_message = None\<rparr>]\<rparr>,
                  last_sync := Some 103, sync_errors := 0, posts := [ex_loads (JNum 3)],
                  clock_reads := 4\<rparr>)
   \<and> b_id (row_to_batch ex_loads ex_row_old) \<noteq> []
   \<and> b_id (row_to_batch ex_loads ex_row_new) \<noteq> []
   \<and> b_id (row_to_batch ex_loads ex_row_last) \<noteq> []
   \<and> b_retry_count (row_to_batch ex_loads ex_row_last) < 10
   \<and> (\<exists>s2. sync_pending flaky_env ex_config ex_agent = Inr s2
           \<and> run_extraction_job flaky_env ex_config ex_agent
               = extract_and_deliver flaky_env ex_config s2
           \<and> posts s2 = [ex_loads (JNum 3), ex_loads (JNum 1), ex_loads (JNum 1), ex_loads (JNum 1)]
           \<and> pending_sync (buffer s2)
               = [ex_row_old,
                  ex_row_last\<lparr>p_retry_count := 1, p_last_error := Some ''connection refused''\<rparr>,
                  ex_row_tail]
           \<and> sync_history (buffer s2)
               = [\<lparr>h_id = ''b1'', h_store_id = ''store-1'', h_record_count = 3,
                    h_synced_at = 102, h_duration_seconds = 1,
                    h_status = Some ''success'', h_error_message = None\<rparr>])"
proof -
  let ?old = "row_to_batch ex_loads ex_row_old"
  let ?new = "row_to_batch ex_loads ex_row_new"
  let ?last = "row_to_batch ex_loads ex_row_last"
  let ?tail = "row_to_batch ex_loads ex_row_tail"
  let ?s1 = "ex_agent\<lparr>buffer :=
                    \<lparr>pending_sync = [ex_row_old, ex_row_last, ex_row_tail],
                     sync_history =
                       [\<lparr>h_id = ''b1'', h_store_id = ''store-1'', h_record_count = 3,
                         h_synced_at = 102, h_duration_seconds = 1,
                         h_status = Some ''success'', h_error_message = None\<rparr>]\<rparr>,
                  last_sync := Some 103, sync_errors := 0, posts := [ex_loads (JNum 3)],
                  clock_reads := 4\<rparr>"
  have fetched: "get_pending (json_loads flaky_env) 5 (buffer ex_agent)
                   = Inr ([?old, ?new] @ ?last # [?tail])"
    by (simp add: get_pending_def get_pending_rows_def sql_limit_def sqlite_integer_def
        ex_agent_def ex_queue_def ex_row_new_def ex_row_old_def ex_row_last_def ex_row_tail_def
        flaky_env_def down_env_def)
  have before: "all_delivered flaky_env ex_config [?old, ?new] ex_agent = Some ?s1"
    by (simp add: row_to_batch_def push_defs ex_defs)
  have ids: "\<forall>b \<in> set [?old, ?new]. b_id b \<noteq> []" "b_id ?last \<noteq> []"
    by (simp_all add: row_to_batch_def ex_row_old_def ex_row_new_def ex_row_last_def)
  have item: "b_retry_count ?last < 10"
    by (simp add: row_to_batch_def ex_row_last_def)
  obtain s2 where failed: "push_to_api flaky_env ex_config (b_payload ?last) (Some (b_id ?last)) ?s1
                     = Inr (False, s2)"
    and len: "length (posts s2) = 4"
    by (simp add: row_to_batch_def push_defs ex_defs)
  have msg: "error_message (transport flaky_env (length (posts s2) - Suc 0)) = ''connection refused''"
    by (simp add: len flaky_env_def down_env_def error_message_def)
  have pl: "b_payload ?last = ex_loads (JNum 1)" "b_id ?last = ''b4''"
    by (simp_all add: row_to_batch_def ex_row_last_def)
  have three: "replicate (nat (config_get (retry_attempts ex_config) 5)) x = [x, x, x]"
    for x :: "(nat, nat) payload"
    by (simp add: config_get_def ex_config_def numeral_3_eq_3)
  have rows: "p_id ex_row_old = ''b2''" "p_id ex_row_last = ''b4''" "p_id ex_row_tail = ''b5''"
      "p_retry_count ex_row_last + 1 = 1"
    by (simp_all add: ex_row_old_def ex_row_last_def ex_row_tail_def)
  note r = sync_pending_stops_at_failure [OF fetched before ids item failed]
  have c1: "sync_pending flaky_env ex_config ex_agent = Inr s2"
    by (rule r [THEN conjunct1])
  have c2: "run_extraction_job flaky_env ex_config ex_agent
              = extract_and_deliver flaky_env ex_config s2"
    by (rule r [THEN conjunct2, THEN conjunct1])
  have c3: "posts s2
              = [ex_loads (JNum 3), ex_loads (JNum 1), ex_loads (JNum 1), ex_loads (JNum 1)]"
    using r [THEN conjunct2, THEN conjunct2, THEN conjunct2, THEN conjunct1]
    by (simp add: three pl)
  have c4: "pending_sync (buffer s2)
               = [ex_row_old,
                  ex_row_last\<lparr>p_retry_count := 1, p_last_error := Some ''connection refused''\<rparr>,
                  ex_row_tail]"
    using r [THEN conjunct2, THEN conjunct2, THEN conjunct2, THEN conjunct2, THEN conjunct2,
             THEN conjunct1]
    by (simp add: msg pl rows)
  have c5: "sync_history (buffer s2)
               = [\<lparr>h_id = ''b1'', h_store_id = ''store-1'', h_record_count = 3,
                    h_synced_at = 102, h_duration_seconds = 1,
                    h_status = Some ''success'', h_error_message = None\<rparr>]"
    using r [THEN conjunct2, THEN conjunct2, THEN conjunct2, THEN conjunct2, THEN conjunct2,
             THEN conjunct2, THEN conjunct1]
    by simp
  from c1 c2 c3 c4 c5 have "\<exists>s2. sync_pending flaky_env ex_config ex_agent = Inr s2
           \<and> run_extraction_job flaky_env ex_config ex_agent
               = extract_and_deliver flaky_env ex_config s2
           \<and> posts s2 = [ex_loads (JNum 3), ex_loads (JNum 1), ex_loads (JNum 1), ex_loads (JNum 1)]
           \<and> pending_sync (buffer s2)
               = [ex_row_old,
                  ex_row_last\<lparr>p_retry_count := 1, p_last_error := Some ''connection refused''\<rparr>,
                  ex_row_tail]
           \<and> sync_history (buffer s2)
               = [\<lparr>h_id = ''b1'', h_store_id = ''store-1'', h_record_count = 3,
                    h_synced_at = 102, h_duration_seconds = 1,
                    h_status = Some ''success'', h_error_message = None\<rparr>]"
    by blast
  then show ?thesis
    using fetched before ids item by simp
qed

theorem empty_extraction_ends_cycle_witness:
  "source down_env = Some (extract_all_data [] [] [] [])
   \<and> total_records (extract_all_data [] [] [] [] :: nat data) = 0
   \<and> get_pending (json_loads down_env) 5 (buffer idle_agent) = Inr []
   \<and> extract_and_deliver down_env ex_config ex_agent = Inr ex_agent
   \<and> run_extraction_job down_env ex_config ex_agent = sync_pending down_env ex_config ex_agent
   \<and> run_extraction_job down_env ex_config idle_agent = Inr idle_agent"
proof -
  have src: "source down_env = Some (extract_all_data [] [] [] [])"
    by (simp add: down_env_def)
  have zero: "total_records (extract_all_data [] [] [] [] :: nat data) = 0"
    by (simp add: total_records_def extract_all_data_def)
  have h: "source down_env = None \<or> (\<exists>d. source down_env = Some d \<and> total_records d = 0)"
    using src zero by simp
  have none: "get_pending (json_loads down_env) 5 (buffer idle_agent) = Inr []"
    by (simp add: get_pending_def get_pending_rows_def sql_limit_def sqlite_integer_def
        idle_agent_def)
  show ?thesis
    using src zero none
      empty_extraction_ends_cycle [OF h, of ex_config ex_agent ex_agent]
      empty_extraction_ends_cycle [OF h, of ex_config idle_agent idle_agent]
    by blast
qed

end
